theory Spec2Isabelle
  imports Complex_Main "HOL-Library.AList"
begin

section \<open>Strings\<close>

text \<open>
  Texts are modelled as \<^typ>\<open>string\<close>, a \<^typ>\<open>char\<close> being one code unit below 256 (the
  Latin-1 range of JavaScript's UTF-16 code units).  On that range the two JavaScript
  string methods the cache key uses are written out in full:
  \<^item> \<^verbatim>\<open>String.prototype.trim\<close> strips white space and line terminators from both ends; below
    256 these are the code units 9 to 13 (tab, line feed, vertical tab, form feed, carriage
    return), 32 (space) and 160 (no-break space);
  \<^item> \<^verbatim>\<open>String.prototype.toLowerCase\<close> maps every code unit with a lower-case counterpart to
    it; below 256 these are 65 to 90 (\<^verbatim>\<open>A\<close> to \<^verbatim>\<open>Z\<close>), 192 to 214 and 216 to 222 (the
    accented capitals; 215 is the multiplication sign), each mapped to the code unit 32
    above it.
\<close>

definition isWhiteSpace :: "char \<Rightarrow> bool" where
  "isWhiteSpace c \<longleftrightarrow> (of_char c :: nat) \<in> {9, 10, 11, 12, 13, 32, 160}"

definition trim :: "string \<Rightarrow> string" where
  "trim s = rev (dropWhile isWhiteSpace (rev (dropWhile isWhiteSpace s)))"

definition isUpperCase :: "char \<Rightarrow> bool" where
  "isUpperCase c \<longleftrightarrow>
     (65::nat) \<le> of_char c \<and> (of_char c :: nat) \<le> 90
     \<or> (192::nat) \<le> of_char c \<and> (of_char c :: nat) \<le> 214
     \<or> (216::nat) \<le> of_char c \<and> (of_char c :: nat) \<le> 222"

definition toLowerChar :: "char \<Rightarrow> char" where
  "toLowerChar c = (if isUpperCase c then char_of ((of_char c :: nat) + 32) else c)"

definition toLowerCase :: "string \<Rightarrow> string" where
  "toLowerCase s = map toLowerChar s"

text \<open>
  Two code units that are the same letter in different case (used to state what
  ``differing only in letter case'' means, independently of \<^const>\<open>toLowerChar\<close>): they are
  equal, or one is a capital and the other is the code unit 32 above it.
\<close>

definition sameLetter :: "char \<Rightarrow> char \<Rightarrow> bool" where
  "sameLetter a b \<longleftrightarrow>
     a = b \<or> (isUpperCase a \<and> (of_char b :: nat) = of_char a + 32)
           \<or> (isUpperCase b \<and> (of_char a :: nat) = of_char b + 32)"

text \<open>JavaScript truthiness of a string: every string but the empty one.\<close>

definition truthy :: "string \<Rightarrow> bool" where
  "truthy s \<longleftrightarrow> s \<noteq> []"

section \<open>Numbers\<close>

text \<open>
  A JavaScript number is an IEEE 754 double.  Every finite double is a rational number,
  so numbers are modelled as \<^typ>\<open>rat\<close>, and every arithmetic operation rounds its exact
  result to the nearest double, ties to the even significand.  \<open>roundDouble\<close> does this
  for results whose magnitude lies in the normal range of doubles (from \<open>2 powi -1022\<close> up to
  \<open>2 powi 1024\<close>), where a double has 53 significant bits: it scales the value by the power
  of two that brings it between \<open>2 ^ 52\<close> and \<open>2 ^ 53\<close>, rounds to an integer and scales
  back.  The numbers of this module (counters, their ratio and the ratio times 100) lie
  well inside that range.
\<close>

text \<open>The number of binary digits of a positive integer.\<close>

function bitLength :: "int \<Rightarrow> nat" where
  "bitLength n = (if 0 < n then Suc (bitLength (n div 2)) else 0)"
  by pat_completeness auto
termination
  by (relation "measure nat") auto

declare bitLength.simps [simp del]

text \<open>Rounding to the nearest integer, a tie going to the even one.\<close>

definition roundHalfEven :: "rat \<Rightarrow> int" where
  "roundHalfEven x =
     (let f = \<lfloor>x\<rfloor>; d = x - of_int f in
      if d < 1 / 2 then f else if 1 / 2 < d then f + 1 else if even f then f else f + 1)"

text \<open>The binary exponent of a positive rational \<open>x\<close>: the \<open>e\<close> with \<open>2 powi e \<le> x < 2 powi (e + 1)\<close>.\<close>

definition exponentOf :: "rat \<Rightarrow> int" where
  "exponentOf x =
     (case quotient_of x of (a, b) \<Rightarrow>
        let d = int (bitLength a) - int (bitLength b)
        in if 2 powi d \<le> x then d else d - 1)"

definition roundDouble :: "rat \<Rightarrow> rat" where
  "roundDouble x =
     (if x = 0 then 0
      else let u = 2 powi (exponentOf \<bar>x\<bar> - 52) in of_int (roundHalfEven (x / u)) * u)"

text \<open>
  The arithmetic of numbers: \<^verbatim>\<open>+\<close>, \<^verbatim>\<open>/\<close> (for a divisor other than 0) and \<^verbatim>\<open>*\<close>, and a
  counter (a natural number here) read as the number that holds it.
\<close>

definition jsAdd :: "rat \<Rightarrow> rat \<Rightarrow> rat" where
  "jsAdd x y = roundDouble (x + y)"

definition jsDiv :: "rat \<Rightarrow> rat \<Rightarrow> rat" where
  "jsDiv x y = roundDouble (x / y)"

definition jsMul :: "rat \<Rightarrow> rat \<Rightarrow> rat" where
  "jsMul x y = roundDouble (x * y)"

definition toNumber :: "nat \<Rightarrow> rat" where
  "toNumber n = roundDouble (of_nat n)"

section \<open>The translation cache (lib/translation-cache)\<close>

text \<open>
  The module state: the \<^verbatim>\<open>Map\<close> \<^verbatim>\<open>translationCache\<close> and the two counters.  A JavaScript
  \<^verbatim>\<open>Map\<close> keeps its entries in insertion order and \<^verbatim>\<open>set\<close> on a present key replaces the
  value in place, which is what \<^const>\<open>AList.update\<close> does on an association list.

  The last two fields are not module state: they record what the process did to the
  outside world, the calls made to the translation provider (text, from, to) and the
  \<^verbatim>\<open>setTimeout\<close> waits in milliseconds, both oldest first.
\<close>

record state =
  translationCache :: "(string \<times> string) list"
  cacheHits :: nat
  cacheMisses :: nat
  providerCalls :: "(string \<times> string \<times> string) list"
  sleeps :: "nat list"

text \<open>
  \<^verbatim>\<open>createHash('md5').update(s).digest('hex')\<close> comes from the runtime's crypto library; it is
  a parameter \<open>md5\<close> of everything that derives a key.
\<close>

definition getCacheKey :: "(string \<Rightarrow> string) \<Rightarrow> string \<Rightarrow> string \<Rightarrow> string \<Rightarrow> string" where
  "getCacheKey md5 text targetLanguage sourceLanguage =
     (let normalizedText = toLowerCase (trim text);
          hash = md5 normalizedText
      in sourceLanguage @ ''-'' @ targetLanguage @ ''-'' @ hash)"

definition getCachedTranslation ::
  "(string \<Rightarrow> string) \<Rightarrow> string \<Rightarrow> string \<Rightarrow> string \<Rightarrow> state \<Rightarrow> string option \<times> state" where
  "getCachedTranslation md5 text targetLanguage sourceLanguage st =
     (let key = getCacheKey md5 text targetLanguage sourceLanguage in
      case map_of (translationCache st) key of
        Some cached \<Rightarrow>
          if truthy cached then (Some cached, st\<lparr>cacheHits := cacheHits st + 1\<rparr>)
          else (None, st\<lparr>cacheMisses := cacheMisses st + 1\<rparr>)
      | None \<Rightarrow> (None, st\<lparr>cacheMisses := cacheMisses st + 1\<rparr>))"

definition setCachedTranslation ::
  "(string \<Rightarrow> string) \<Rightarrow> string \<Rightarrow> string \<Rightarrow> string \<Rightarrow> string \<Rightarrow> state \<Rightarrow> state" where
  "setCachedTranslation md5 text translatedText targetLanguage sourceLanguage st =
     (if \<not> truthy text \<or> \<not> truthy translatedText \<or> text = translatedText then st
      else
        let key = getCacheKey md5 text targetLanguage sourceLanguage in
        st\<lparr>translationCache := AList.update key translatedText (translationCache st)\<rparr>)"

record cacheStats =
  size' :: nat
  hits :: nat
  misses :: nat
  hitRate :: rat

text \<open>
  \<^verbatim>\<open>translationCache.size\<close> is the number of entries; the association list holds one pair
  per key (see \<open>distinct_keys_setCachedTranslation\<close>), so it is the length of the list.
  The hit rate is computed in numbers: \<^verbatim>\<open>(cacheHits / (cacheHits + cacheMisses)) * 100\<close>.
\<close>

definition getCacheStats :: "state \<Rightarrow> cacheStats" where
  "getCacheStats st =
     \<lparr> size' = length (translationCache st),
       hits = cacheHits st,
       misses = cacheMisses st,
       hitRate = (if jsAdd (toNumber (cacheHits st)) (toNumber (cacheMisses st)) > 0
                  then jsMul (jsDiv (toNumber (cacheHits st))
                                (jsAdd (toNumber (cacheHits st)) (toNumber (cacheMisses st))))
                         100
                  else 0) \<rparr>"

text \<open>The state of a freshly loaded module, before anything happened.\<close>

definition initialState :: state where
  "initialState = \<lparr> translationCache = [], cacheHits = 0, cacheMisses = 0,
                    providerCalls = [], sleeps = [] \<rparr>"

section \<open>Collaborators\<close>

text \<open>
  What a JavaScript \<^verbatim>\<open>catch\<close> can receive: an \<^verbatim>\<open>Error\<close> object with its message, or any
  other thrown value.
\<close>

datatype jsError = Error string | Thrown

text \<open>
  One call of \<^verbatim>\<open>google-translate-api-x\<close>: it resolves to a result whose \<^verbatim>\<open>text\<close> field is
  given (a missing field and the empty string are both falsy, and are both \<open>[]\<close> here), or
  it rejects.
\<close>

datatype providerResult = Returns string | Throws jsError

record metadata =
  title :: string
  language :: "string option"

record chunk =
  chunkIndex :: nat
  content :: string

text \<open>
  The environment of the routes.  \<open>translate\<close> is the provider: its first argument is the
  number of provider calls made before this one, so that its answers may change from call
  to call; then the text, \<^verbatim>\<open>from\<close> and \<^verbatim>\<open>to\<close>.  \<open>findMetadata\<close> and \<open>findMetadataWithChunks\<close> are
  the two \<^verbatim>\<open>findOne\<close> queries on \<^verbatim>\<open>document_metadata\<close> (by title or id; by title with a
  positive chunk count, newest first), \<open>findChunks\<close> is the query on \<^verbatim>\<open>documents\<close> with
  \<^verbatim>\<open>.sort({ chunkIndex: 1 })\<close>.
\<close>

record env =
  md5 :: "string \<Rightarrow> string"
  translate :: "nat \<Rightarrow> string \<Rightarrow> string \<Rightarrow> string \<Rightarrow> providerResult"
  findMetadata :: "string \<Rightarrow> metadata option"
  findMetadataWithChunks :: "string \<Rightarrow> metadata option"
  findChunks :: "string \<Rightarrow> chunk list"
  encodeURIComponent :: "string \<Rightarrow> string"
  decodeURIComponent :: "string \<Rightarrow> string option"

section \<open>The chunk translator (translateText, the same in both routes)\<close>

text \<open>\<^verbatim>\<open>s.includes(sub)\<close>: \<open>sub\<close> occurs in \<open>s\<close> as a contiguous run.\<close>

fun includesStr :: "string \<Rightarrow> string \<Rightarrow> bool" where
  "includesStr [] sub = (sub = [])"
| "includesStr (c # cs) sub = (take (length sub) (c # cs) = sub \<or> includesStr cs sub)"

text \<open>
  The \<^verbatim>\<open>try\<close> block of \<^verbatim>\<open>translateText\<close>: \<open>Inl\<close> is a throw, \<open>Inr (Some r)\<close> is the
  \<^verbatim>\<open>return result.text\<close> inside the block, \<open>Inr None\<close> is leaving the block without
  returning.
\<close>

definition translateAttempt ::
  "env \<Rightarrow> string \<Rightarrow> string \<Rightarrow> string \<Rightarrow> state \<Rightarrow> (jsError + string option) \<times> state" where
  "translateAttempt E text targetLanguage sourceLanguage st =
     (let st1 = st\<lparr>providerCalls := providerCalls st @ [(text, sourceLanguage, targetLanguage)]\<rparr> in
      case translate E (length (providerCalls st)) text sourceLanguage targetLanguage of
        Throws e \<Rightarrow> (Inl e, st1)
      | Returns resultText \<Rightarrow>
          if truthy resultText \<and> resultText \<noteq> text
          then (Inr (Some resultText),
                setCachedTranslation (md5 E) text resultText targetLanguage sourceLanguage st1)
          else (Inr None, st1))"

text \<open>
  The \<^verbatim>\<open>try\<close>/\<^verbatim>\<open>catch\<close> statement of \<^verbatim>\<open>translateText\<close> and the \<^verbatim>\<open>return text\<close> after it.  The
  result is \<open>Inl\<close> where the JavaScript function would throw (reject) and \<open>Inr\<close> where it
  returns.
\<close>

definition translateUncached ::
  "env \<Rightarrow> string \<Rightarrow> string \<Rightarrow> string \<Rightarrow> state \<Rightarrow> (jsError + string) \<times> state" where
  "translateUncached E text targetLanguage sourceLanguage st =
     (case translateAttempt E text targetLanguage sourceLanguage st of
        (Inr (Some r), st2) \<Rightarrow> (Inr r, st2)
      | (Inl error, st2) \<Rightarrow> (Inr text, st2)
      | (Inr None, st2) \<Rightarrow> (Inr text, st2))"

text \<open>\<^verbatim>\<open>translateText\<close> itself.\<close>

definition translateText ::
  "env \<Rightarrow> string \<Rightarrow> string \<Rightarrow> string \<Rightarrow> state \<Rightarrow> (jsError + string) \<times> state" where
  "translateText E text targetLanguage sourceLanguage st =
     (if targetLanguage = sourceLanguage \<or> \<not> truthy text \<or> length (trim text) = 0
      then (Inr text, st)
      else
        case getCachedTranslation (md5 E) text targetLanguage sourceLanguage st of
          (Some cached, st1) \<Rightarrow>
            if truthy cached then (Inr cached, st1)
            else translateUncached E text targetLanguage sourceLanguage st1
        | (None, st1) \<Rightarrow> translateUncached E text targetLanguage sourceLanguage st1)"

section \<open>Waiting and retrying\<close>

text \<open>\<^verbatim>\<open>await new Promise(resolve => setTimeout(resolve, ms))\<close>\<close>

definition sleep :: "nat \<Rightarrow> state \<Rightarrow> state" where
  "sleep ms st = st\<lparr>sleeps := sleeps st @ [ms]\<rparr>"

definition MAX_RETRIES :: nat where
  "MAX_RETRIES = 3"

definition DELAY_BETWEEN_REQUESTS :: nat where
  "DELAY_BETWEEN_REQUESTS = 2000"

text \<open>\<^verbatim>\<open>error instanceof Error && error.message.includes('Too Many Requests')\<close>\<close>

definition isTooManyRequests :: "jsError \<Rightarrow> bool" where
  "isTooManyRequests e =
     (case e of Error msg \<Rightarrow> includesStr msg ''Too Many Requests'' | Thrown \<Rightarrow> False)"

text \<open>
  The \<^verbatim>\<open>while\<close> loop around the call of the translator, the same in both routes but for
  the factor of the wait (\<^verbatim>\<open>retryCount * 5000\<close> in the translate route, \<^verbatim>\<open>retryCount * 3000\<close>
  in the download route).  \<open>tr\<close> is the awaited call in the \<^verbatim>\<open>try\<close> block; the result is
  the final \<^verbatim>\<open>translatedContent\<close> and \<^verbatim>\<open>retryCount\<close>.  The translate route leaves the loop
  through its \<^verbatim>\<open>success\<close> flag and the download route through \<^verbatim>\<open>break\<close>; both are the first
  case below.
\<close>

function retryLoop ::
  "nat \<Rightarrow> (state \<Rightarrow> (jsError + string) \<times> state) \<Rightarrow> string \<Rightarrow> nat \<Rightarrow> state
     \<Rightarrow> (string \<times> nat) \<times> state" where
  "retryLoop factor tr translatedContent retryCount st =
     (if retryCount < MAX_RETRIES then
        (case tr st of
           (Inr r, st1) \<Rightarrow> ((r, retryCount), st1)
         | (Inl error, st1) \<Rightarrow>
             if isTooManyRequests error
             then retryLoop factor tr translatedContent (retryCount + 1)
                    (sleep ((retryCount + 1) * factor) st1)
             else ((translatedContent, retryCount + 1), st1))
      else ((translatedContent, retryCount), st))"
  by pat_completeness auto
termination
  by (relation "measure (\<lambda>(factor, tr, translatedContent, retryCount, st). MAX_RETRIES - retryCount)")
     auto

declare retryLoop.simps [simp del]

text \<open>The loop as each route starts it: \<^verbatim>\<open>retryCount = 0\<close> and its own factor.\<close>

definition retryPOST ::
  "(state \<Rightarrow> (jsError + string) \<times> state) \<Rightarrow> string \<Rightarrow> state \<Rightarrow> (string \<times> nat) \<times> state" where
  "retryPOST tr translatedContent st = retryLoop 5000 tr translatedContent 0 st"

definition retryGET ::
  "(state \<Rightarrow> (jsError + string) \<times> state) \<Rightarrow> string \<Rightarrow> state \<Rightarrow> (string \<times> nat) \<times> state" where
  "retryGET tr translatedContent st = retryLoop 3000 tr translatedContent 0 st"

section \<open>Responses\<close>

text \<open>
  A response is its HTTP status and the fields of its JSON body that the pipeline fills
  from its data (a field that a response does not have is \<open>None\<close>): \<open>chunkCount\<close> is
  \<^verbatim>\<open>chunks\<close> or \<^verbatim>\<open>documentInfo.chunks\<close>, \<open>downloadUrl\<close> is \<^verbatim>\<open>fallbackOptions.downloadUrl\<close>,
  \<open>retryAfter\<close> is \<^verbatim>\<open>retryOptions.retryAfter\<close>.  \<open>body\<close> is the text the answer is made
  from: for a translated document the joined text \<^verbatim>\<open>fullTranslatedContent\<close>, which the
  route hands to the renderer together with the requested format.  What the renderer
  makes of it (file name, DOCX or PDF bytes, the Markdown and JSON wrappers) is outside
  this model, as are the constant lists of suggestions.
\<close>

record response =
  status :: nat
  error :: "string option"
  message :: "string option"
  chunkCount :: "nat option"
  estimatedTime :: "string option"
  downloadUrl :: "string option"
  retryAfter :: "string option"
  body :: "string option"
  contentLength :: "nat option"

definition emptyResponse :: "nat \<Rightarrow> response" where
  "emptyResponse code =
     \<lparr> status = code, error = None, message = None, chunkCount = None, estimatedTime = None,
       downloadUrl = None, retryAfter = None, body = None, contentLength = None \<rparr>"

definition errorResponse :: "nat \<Rightarrow> string \<Rightarrow> response" where
  "errorResponse code msg = (emptyResponse code)\<lparr>error := Some msg\<rparr>"

text \<open>A number in a template literal: its decimal digits.\<close>

fun showNat :: "nat \<Rightarrow> string" where
  "showNat n =
     (if n < 10 then [char_of (48 + n)] else showNat (n div 10) @ [char_of (48 + n mod 10)])"

declare showNat.simps [simp del]

text \<open>\<^verbatim>\<open>Math.ceil(a / b)\<close> for natural numbers \<open>a\<close> and \<open>b\<close>, \<open>b\<close> positive.\<close>

definition ceilDiv :: "nat \<Rightarrow> nat \<Rightarrow> nat" where
  "ceilDiv a b = (a + b - 1) div b"

text \<open>\<^verbatim>\<open>xs.join(sep)\<close>\<close>

fun join :: "string \<Rightarrow> string list \<Rightarrow> string" where
  "join sep [] = []"
| "join sep [x] = x"
| "join sep (x # y # ys) = x @ sep @ join sep (y # ys)"

text \<open>
  \<^verbatim>\<open>xs[i] = v\<close> on a JavaScript array: in range it replaces, at the end it appends, and
  beyond the end it leaves holes, which \<^verbatim>\<open>join\<close> prints as empty strings (a hole is \<open>[]\<close>
  here).
\<close>

definition arraySet :: "string list \<Rightarrow> nat \<Rightarrow> string \<Rightarrow> string list" where
  "arraySet xs i v =
     (if i < length xs then xs[i := v] else xs @ replicate (i - length xs) [] @ [v])"

text \<open>The link to the untranslated original that both rejections of the translate route carry.\<close>

definition fallbackUrl :: "env \<Rightarrow> string \<Rightarrow> string \<Rightarrow> string" where
  "fallbackUrl E docTitle fmt =
     ''/api/documents/download?documentId='' @ encodeURIComponent E docTitle
       @ ''&targetLanguage=en&format='' @ fmt @ ''&skipTranslation=true''"

text \<open>
  \<^verbatim>\<open>generateDocumentResponse\<close>, as far as the model goes: the success answer with the joined
  text and the number of chunks.
\<close>

definition generateDocumentResponse :: "string \<Rightarrow> nat \<Rightarrow> response" where
  "generateDocumentResponse fullTranslatedContent chunksCount =
     (emptyResponse 200)\<lparr> chunkCount := Some chunksCount,
                           body := Some fullTranslatedContent,
                           contentLength := Some (length fullTranslatedContent) \<rparr>"


section \<open>The translate route (POST /api/documents/translate)\<close>

text \<open>
  The request body after \<^verbatim>\<open>request.json()\<close>; \<open>None\<close> is a field that is not there, for
  which the destructuring defaults \<^verbatim>\<open>"en"\<close> and \<^verbatim>\<open>"txt"\<close> apply.
\<close>

record request =
  reqDocumentId :: "string option"
  reqTargetLanguage :: "string option"
  reqFormat :: "string option"

text \<open>\<^verbatim>\<open>metadata.language || "en"\<close>\<close>

definition sourceLanguageOf :: "metadata \<Rightarrow> string" where
  "sourceLanguageOf m = (case language m of Some l \<Rightarrow> if truthy l then l else ''en'' | None \<Rightarrow> ''en'')"

text \<open>
  The body of the \<^verbatim>\<open>for\<close> loop for chunk \<open>i\<close>, without the store into \<^verbatim>\<open>translatedChunks\<close>:
  the retry loop around \<^verbatim>\<open>translateText\<close>, then the pacing wait, for which the route asks
  the cache again.
\<close>

definition processChunkPOST ::
  "env \<Rightarrow> string \<Rightarrow> string \<Rightarrow> chunk list \<Rightarrow> nat \<Rightarrow> state \<Rightarrow> string \<times> state" where
  "processChunkPOST E targetLanguage sourceLanguage cs i st =
     (let c = cs ! i in
      case retryPOST (translateText E (content c) targetLanguage sourceLanguage) (content c) st of
        ((translatedContent, retryCount), st1) \<Rightarrow>
          if i < length cs - 1 then
            (case getCachedTranslation (md5 E) (content c) targetLanguage sourceLanguage st1 of
               (cached, st2) \<Rightarrow>
                 let delayTime = (if (case cached of Some v \<Rightarrow> truthy v | None \<Rightarrow> False)
                                  then 100 else DELAY_BETWEEN_REQUESTS)
                 in (translatedContent, sleep delayTime st2))
          else (translatedContent, st1))"

function chunkLoopPOST ::
  "env \<Rightarrow> string \<Rightarrow> string \<Rightarrow> chunk list \<Rightarrow> nat \<Rightarrow> string list \<Rightarrow> state
     \<Rightarrow> string list \<times> state" where
  "chunkLoopPOST E targetLanguage sourceLanguage cs i translatedChunks st =
     (if i < length cs then
        (case processChunkPOST E targetLanguage sourceLanguage cs i st of
           (translatedContent, st1) \<Rightarrow>
             chunkLoopPOST E targetLanguage sourceLanguage cs (i + 1)
               (arraySet translatedChunks i translatedContent) st1)
      else (translatedChunks, st))"
  by pat_completeness auto
termination
  by (relation "measure (\<lambda>(E, targetLanguage, sourceLanguage, cs, i, translatedChunks, st).
                  length cs - i)") auto

declare chunkLoopPOST.simps [simp del]

definition tooLargePOST :: "env \<Rightarrow> metadata \<Rightarrow> string \<Rightarrow> nat \<Rightarrow> response" where
  "tooLargePOST E m fmt n =
     (emptyResponse 413)
       \<lparr> error := Some ''Document too large for immediate translation'',
         message := Some (''This document has '' @ showNat n
            @ '' text chunks. Due to Google Translate rate limits, we recommend:''),
         chunkCount := Some n,
         estimatedTime := Some (showNat (ceilDiv (n * 3) 60) @ '' minutes''),
         downloadUrl := Some (fallbackUrl E (title m) fmt) \<rparr>"

definition unavailablePOST :: "env \<Rightarrow> metadata \<Rightarrow> string \<Rightarrow> nat \<Rightarrow> response" where
  "unavailablePOST E m fmt n =
     (emptyResponse 503)
       \<lparr> error := Some ''Translation service temporarily unavailable'',
         message := Some ''Google Translate is currently rate-limited. You have several options:'',
         chunkCount := Some n,
         downloadUrl := Some (fallbackUrl E (title m) fmt),
         retryAfter := Some ''10-15 minutes'' \<rparr>"

text \<open>
  The destructuring \<^verbatim>\<open>const { documentId, targetLanguage = "en", format = "txt" }\<close>: a
  missing \<^verbatim>\<open>documentId\<close> is falsy, as the empty string is.
\<close>

definition documentIdOf :: "request \<Rightarrow> string" where
  "documentIdOf req = (case reqDocumentId req of Some d \<Rightarrow> d | None \<Rightarrow> [])"

definition targetLanguageOf :: "request \<Rightarrow> string" where
  "targetLanguageOf req = (case reqTargetLanguage req of Some t \<Rightarrow> t | None \<Rightarrow> ''en'')"

definition formatOf :: "request \<Rightarrow> string" where
  "formatOf req = (case reqFormat req of Some f \<Rightarrow> f | None \<Rightarrow> ''txt'')"

definition POST :: "env \<Rightarrow> request \<Rightarrow> state \<Rightarrow> response \<times> state" where
  "POST E req st =
     (let documentId = documentIdOf req;
          targetLanguage = targetLanguageOf req;
          fmt = formatOf req
      in
      if \<not> truthy documentId then (errorResponse 400 ''Document ID is required'', st)
      else if \<not> truthy targetLanguage then (errorResponse 400 ''Target language is required'', st)
      else
        case findMetadata E documentId of
          None \<Rightarrow> (errorResponse 404 ''Document not found'', st)
        | Some m \<Rightarrow>
            let cs = findChunks E (title m) in
            if length cs = 0 then (errorResponse 404 ''No document chunks found'', st)
            else if length cs > 100 then (tooLargePOST E m fmt (length cs), st)
            else
              let sourceLanguage = sourceLanguageOf m in
              if targetLanguage = sourceLanguage
              then (generateDocumentResponse (join ''\<newline>\<newline>'' (map content cs)) (length cs), st)
              else
                case translateText E ''test'' targetLanguage sourceLanguage st of
                  (testTranslation, st1) \<Rightarrow>
                    if testTranslation = Inr ''test'' then (unavailablePOST E m fmt (length cs), st1)
                    else
                      case chunkLoopPOST E targetLanguage sourceLanguage cs 0 [] st1 of
                        (translatedChunks, st2) \<Rightarrow>
                          (generateDocumentResponse (join ''\<newline>\<newline>'' translatedChunks)
                             (length cs), st2))"

section \<open>The download route (GET /api/documents/download)\<close>

text \<open>The query parameters; \<open>None\<close> is \<^verbatim>\<open>searchParams.get\<close> returning \<^verbatim>\<open>null\<close>.\<close>

record query =
  qDocumentId :: "string option"
  qTargetLanguage :: "string option"
  qFormat :: "string option"
  qSkipTranslation :: "string option"
  qContent :: "string option"
  qFilename :: "string option"
  qContentType :: "string option"

definition isTruthyParam :: "string option \<Rightarrow> bool" where
  "isTruthyParam p = (case p of Some v \<Rightarrow> truthy v | None \<Rightarrow> False)"

text \<open>The body of the download route's \<^verbatim>\<open>for\<close> loop for chunk \<open>i\<close>.\<close>

definition processChunkGET ::
  "env \<Rightarrow> string \<Rightarrow> string \<Rightarrow> chunk list \<Rightarrow> nat \<Rightarrow> state \<Rightarrow> string \<times> state" where
  "processChunkGET E targetLanguage sourceLanguage cs i st =
     (let c = cs ! i in
      case retryGET (translateText E (content c) targetLanguage sourceLanguage) (content c) st of
        ((translatedContent, retryCount), st1) \<Rightarrow>
          if i < length cs - 1 then (translatedContent, sleep 2000 st1)
          else (translatedContent, st1))"

function chunkLoopGET ::
  "env \<Rightarrow> string \<Rightarrow> string \<Rightarrow> chunk list \<Rightarrow> nat \<Rightarrow> string list \<Rightarrow> state
     \<Rightarrow> string list \<times> state" where
  "chunkLoopGET E targetLanguage sourceLanguage cs i translatedChunks st =
     (if i < length cs then
        (case processChunkGET E targetLanguage sourceLanguage cs i st of
           (translatedContent, st1) \<Rightarrow>
             chunkLoopGET E targetLanguage sourceLanguage cs (i + 1)
               (arraySet translatedChunks i translatedContent) st1)
      else (translatedChunks, st))"
  by pat_completeness auto
termination
  by (relation "measure (\<lambda>(E, targetLanguage, sourceLanguage, cs, i, translatedChunks, st).
                  length cs - i)") auto

declare chunkLoopGET.simps [simp del]

definition tooLargeGET :: "nat \<Rightarrow> response" where
  "tooLargeGET n =
     (emptyResponse 413)
       \<lparr> error := Some ''Document too large for direct download'',
         message := Some (''This document has '' @ showNat n
            @ '' chunks. Please use the /api/documents/translate endpoint for large documents.''),
         chunkCount := Some n \<rparr>"

text \<open>The text download at the end of the route (\<^verbatim>\<open>content\<close> and \<^verbatim>\<open>filename\<close> parameters).\<close>

definition textDownload :: "env \<Rightarrow> query \<Rightarrow> response" where
  "textDownload E q =
     (if \<not> isTruthyParam (qContent q) \<or> \<not> isTruthyParam (qFilename q)
      then errorResponse 400 ''Missing content or filename''
      else
        case decodeURIComponent E (the (qContent q)) of
          None \<Rightarrow> errorResponse 500 ''Failed to download file''
        | Some decodedContent \<Rightarrow> (emptyResponse 200)\<lparr>body := Some decodedContent\<rparr>)"

text \<open>The condition under which the route builds a binary document.\<close>

definition binaryDownload :: "query \<Rightarrow> bool" where
  "binaryDownload q \<longleftrightarrow>
     isTruthyParam (qDocumentId q) \<and> isTruthyParam (qTargetLanguage q)
     \<and> isTruthyParam (qFormat q) \<and> (qFormat q = Some ''pdf'' \<or> qFormat q = Some ''docx'')"

definition skipTranslationOf :: "query \<Rightarrow> bool" where
  "skipTranslationOf q \<longleftrightarrow> qSkipTranslation q = Some ''true''"

definition GET :: "env \<Rightarrow> query \<Rightarrow> state \<Rightarrow> response \<times> state" where
  "GET E q st =
     (let skipTranslation = skipTranslationOf q in
      if binaryDownload q
      then
        let documentId = the (qDocumentId q); targetLanguage = the (qTargetLanguage q) in
        case findMetadataWithChunks E documentId of
          None \<Rightarrow> (errorResponse 404 ''Document not found or has no chunks'', st)
        | Some m \<Rightarrow>
            let cs = findChunks E documentId in
            if length cs = 0 then (errorResponse 404 ''No document chunks found'', st)
            else if length cs > 50 \<and> \<not> skipTranslation then (tooLargeGET (length cs), st)
            else
              let sourceLanguage = sourceLanguageOf m in
              case (if skipTranslation \<or> targetLanguage = sourceLanguage
                    then (map content cs, st)
                    else chunkLoopGET E targetLanguage sourceLanguage cs 0 [] st) of
                (translatedChunks, st1) \<Rightarrow>
                  ((emptyResponse 200)\<lparr>body := Some (join ''\<newline>\<newline>'' translatedChunks)\<rparr>, st1)
      else (textDownload E q, st))"

section \<open>The fallback link\<close>


section \<open>What a chunk is expected to become\<close>

text \<open>
  The translation a text gets in a given state, in the specification's words: the cached
  translation when the cache has one, else what the provider returns when that is present
  and differs from the text; \<open>None\<close> when there is nothing to translate (same language,
  empty or blank text) or the provider call fails.
\<close>

definition translationOf :: "env \<Rightarrow> string \<Rightarrow> string \<Rightarrow> string \<Rightarrow> state \<Rightarrow> string option" where
  "translationOf E tgt src tx st =
     (if tgt = src \<or> tx = [] \<or> trim tx = [] then None
      else
        case fst (getCachedTranslation (md5 E) tx tgt src st) of
          Some cached \<Rightarrow> Some cached
        | None \<Rightarrow>
            (case translate E (length (providerCalls st)) tx src tgt of
               Returns r \<Rightarrow> if r \<noteq> [] \<and> r \<noteq> tx then Some r else None
             | Throws e \<Rightarrow> None))"

text \<open>The per-chunk outcome: the translation on success, the original text on failure.\<close>

definition chunkOutcome :: "env \<Rightarrow> string \<Rightarrow> string \<Rightarrow> string \<Rightarrow> state \<Rightarrow> string" where
  "chunkOutcome E tgt src tx st = (case translationOf E tgt src tx st of Some t \<Rightarrow> t | None \<Rightarrow> tx)"

text \<open>The provider is called for the text (the cache has nothing for it) and the call throws.\<close>

definition providerFails :: "env \<Rightarrow> string \<Rightarrow> string \<Rightarrow> string \<Rightarrow> state \<Rightarrow> bool" where
  "providerFails E tgt src tx st \<longleftrightarrow>
     fst (getCachedTranslation (md5 E) tx tgt src st) = None
     \<and> (case translate E (length (providerCalls st)) tx src tgt of
          Throws e \<Rightarrow> True | Returns r \<Rightarrow> False)"

text \<open>The state in which each route's loop reaches chunk \<open>k\<close>, having started in \<open>st\<close>.\<close>

fun statesPOST :: "env \<Rightarrow> string \<Rightarrow> string \<Rightarrow> chunk list \<Rightarrow> state \<Rightarrow> nat \<Rightarrow> state" where
  "statesPOST E tgt src cs st 0 = st"
| "statesPOST E tgt src cs st (Suc k) =
     snd (processChunkPOST E tgt src cs k (statesPOST E tgt src cs st k))"

fun statesGET :: "env \<Rightarrow> string \<Rightarrow> string \<Rightarrow> chunk list \<Rightarrow> state \<Rightarrow> nat \<Rightarrow> state" where
  "statesGET E tgt src cs st 0 = st"
| "statesGET E tgt src cs st (Suc k) =
     snd (processChunkGET E tgt src cs k (statesGET E tgt src cs st k))"

text \<open>
  The wait of the translate route after a chunk that is not the last: \<^verbatim>\<open>delayTime\<close>, computed
  from a cache lookup made after \<^verbatim>\<open>translateText\<close> has run on the chunk.
\<close>

definition pacingPOST :: "env \<Rightarrow> string \<Rightarrow> string \<Rightarrow> string \<Rightarrow> state \<Rightarrow> nat" where
  "pacingPOST E tgt src tx st =
     (if fst (getCachedTranslation (md5 E) tx tgt src (snd (translateText E tx tgt src st))) \<noteq> None
      then 100 else 2000)"

section \<open>Example data\<close>

text \<open>
  The document of the specification's end-to-end example, \<^verbatim>\<open>notes.txt\<close> in English with the
  chunks \<^verbatim>\<open>Hello.\<close>, \<^verbatim>\<open>World.\<close> and \<^verbatim>\<open>Bye.\<close>, a provider with a fixed table, and hashing
  replaced by the identity.
\<close>

definition exampleTable :: "string \<Rightarrow> providerResult" where
  "exampleTable t =
     (if t = ''Hello.'' then Returns ''Hola.''
      else if t = ''World.'' then Returns ''Mundo.''
      else if t = ''Bye.'' then Returns ''Adios.''
      else if t = ''test'' then Returns ''prueba''
      else Throws (Error ''no translation''))"

definition exampleProvider :: "nat \<Rightarrow> string \<Rightarrow> string \<Rightarrow> string \<Rightarrow> providerResult" where
  "exampleProvider n t from to = exampleTable t"

definition exampleChunks :: "chunk list" where
  "exampleChunks =
     [\<lparr>chunkIndex = 0, content = ''Hello.''\<rparr>, \<lparr>chunkIndex = 1, content = ''World.''\<rparr>,
      \<lparr>chunkIndex = 2, content = ''Bye.''\<rparr>]"

definition exampleEnv :: "(nat \<Rightarrow> string \<Rightarrow> string \<Rightarrow> string \<Rightarrow> providerResult) \<Rightarrow> chunk list \<Rightarrow> env" where
  "exampleEnv provider cs =
     \<lparr> md5 = (\<lambda>s. s), translate = provider,
       findMetadata = (\<lambda>d. if d = ''notes.txt''
                            then Some \<lparr>title = ''notes.txt'', language = Some ''en''\<rparr> else None),
       findMetadataWithChunks = (\<lambda>d. if d = ''notes.txt''
                            then Some \<lparr>title = ''notes.txt'', language = Some ''en''\<rparr> else None),
       findChunks = (\<lambda>d. if d = ''notes.txt'' then cs else []),
       encodeURIComponent = (\<lambda>s. s), decodeURIComponent = Some \<rparr>"

definition exampleRequest :: request where
  "exampleRequest =
     \<lparr>reqDocumentId = Some ''notes.txt'', reqTargetLanguage = Some ''es'', reqFormat = None\<rparr>"

definition exampleQuery :: query where
  "exampleQuery =
     \<lparr>qDocumentId = Some ''notes.txt'', qTargetLanguage = Some ''es'', qFormat = Some ''pdf'',
      qSkipTranslation = None, qContent = None, qFilename = None, qContentType = None\<rparr>"

text \<open>A document of \<open>n\<close> chunks, all with the text \<^verbatim>\<open>Hello.\<close>\<close>

definition manyChunks :: "nat \<Rightarrow> chunk list" where
  "manyChunks n = map (\<lambda>i. \<lparr>chunkIndex = i, content = ''Hello.''\<rparr>) [0..<n]"

text \<open>A provider that answers every call with a rate-limit error.\<close>

definition rateLimitedProvider :: "nat \<Rightarrow> string \<Rightarrow> string \<Rightarrow> string \<Rightarrow> providerResult" where
  "rateLimitedProvider n t from to = Throws (Error ''429 Too Many Requests'')"

text \<open>The example query with \<^verbatim>\<open>skipTranslation=true\<close>.\<close>

definition exampleQuerySkip :: query where
  "exampleQuerySkip = exampleQuery\<lparr>qSkipTranslation := Some ''true''\<rparr>"

text \<open>The example provider, failing for the chunk \<^verbatim>\<open>World.\<close> only.\<close>

definition failingProvider :: "nat \<Rightarrow> string \<Rightarrow> string \<Rightarrow> string \<Rightarrow> providerResult" where
  "failingProvider n t from to =
     (if t = ''World.'' then Throws (Error ''Too Many Requests'') else exampleTable t)"

text \<open>A translator that throws the same error on every call, and counts as a provider call.\<close>

definition throwingTranslator :: "jsError \<Rightarrow> state \<Rightarrow> (jsError + string) \<times> state" where
  "throwingTranslator e st = (Inl e, st\<lparr>providerCalls := providerCalls st @ [(''Hello.'', ''en'', ''es'')]\<rparr>)"

text \<open>A document of one chunk.\<close>

definition oneChunk :: "chunk list" where
  "oneChunk = [\<lparr>chunkIndex = 0, content = ''Hello.''\<rparr>]"


text \<open>A cache that already holds the translation of \<^verbatim>\<open>Hello.\<close>\<close>

definition cachedState :: state where
  "cachedState = initialState\<lparr>translationCache := [(''en-es-hello.'', ''Hola.'')]\<rparr>"

section \<open>Cache keys\<close>

lemma of_char_toLowerChar:
  "(of_char (toLowerChar c) :: nat) = (if isUpperCase c then of_char c + 32 else of_char c)"
  by (simp add: toLowerChar_def isUpperCase_def)

lemma isWhiteSpace_toLowerChar: "isWhiteSpace (toLowerChar c) = isWhiteSpace c"
  by (auto simp: isWhiteSpace_def of_char_toLowerChar isUpperCase_def)

lemma sameLetter_toLowerChar: "sameLetter a b \<Longrightarrow> toLowerChar a = toLowerChar b"
proof -
  assume h: "sameLetter a b"
  have "(of_char (toLowerChar a) :: nat) = of_char (toLowerChar b)"
    using h by (auto simp: sameLetter_def of_char_toLowerChar isUpperCase_def)
  then show ?thesis by simp
qed

lemma dropWhile_toLowerCase:
  "dropWhile isWhiteSpace (toLowerCase s) = toLowerCase (dropWhile isWhiteSpace s)"
  by (induction s) (simp_all add: toLowerCase_def isWhiteSpace_toLowerChar)

lemma trim_toLowerCase: "trim (toLowerCase s) = toLowerCase (trim s)"
proof -
  have r: "\<And>t. rev (toLowerCase t) = toLowerCase (rev t)"
    by (simp add: toLowerCase_def rev_map)
  show ?thesis
    by (simp add: trim_def dropWhile_toLowerCase r)
qed

lemma trim_whitespace_around:
  assumes "\<forall>c \<in> set w1. isWhiteSpace c" and "\<forall>c \<in> set w2. isWhiteSpace c"
  shows "trim (w1 @ s @ w2) = trim s"
proof -
  have a: "dropWhile isWhiteSpace (w1 @ s @ w2) = dropWhile isWhiteSpace (s @ w2)"
    using assms(1) by (simp add: dropWhile_append2)
  show ?thesis
  proof (cases "\<forall>c \<in> set s. isWhiteSpace c")
    case True
    then have "dropWhile isWhiteSpace (s @ w2) = []" "dropWhile isWhiteSpace s = []"
      using assms(2) by auto
    then show ?thesis unfolding trim_def a by (simp only:)
  next
    case False
    then have "dropWhile isWhiteSpace (s @ w2) = dropWhile isWhiteSpace s @ w2"
      by (auto simp: dropWhile_append)
    moreover have "dropWhile isWhiteSpace (rev w2 @ rev (dropWhile isWhiteSpace s))
        = dropWhile isWhiteSpace (rev (dropWhile isWhiteSpace s))"
      by (rule dropWhile_append2) (use assms(2) in auto)
    ultimately show ?thesis by (simp add: trim_def a)
  qed
qed

lemma toLowerCase_sameLetter: "list_all2 sameLetter s t \<Longrightarrow> toLowerCase s = toLowerCase t"
  by (induction rule: list_all2_induct) (simp_all add: toLowerCase_def sameLetter_toLowerChar)

lemma getCacheKey_normalized:
  assumes "\<forall>c \<in> set w1. isWhiteSpace c" and "\<forall>c \<in> set w2. isWhiteSpace c"
    and "list_all2 sameLetter s t"
  shows "getCacheKey h (w1 @ t @ w2) tgt src = getCacheKey h s tgt src"
proof -
  have "toLowerCase (trim (w1 @ t @ w2)) = trim (toLowerCase t)"
    using assms(1,2) by (simp add: trim_whitespace_around trim_toLowerCase)
  also have "\<dots> = trim (toLowerCase s)"
    using toLowerCase_sameLetter [OF assms(3)] by simp
  also have "\<dots> = toLowerCase (trim s)"
    by (rule trim_toLowerCase)
  finally show ?thesis by (simp add: getCacheKey_def)
qed

lemma getCacheKey_target_inj:
  "getCacheKey h s tgt src = getCacheKey h s tgt' src \<longleftrightarrow> tgt = tgt'"
  by (simp add: getCacheKey_def Let_def)

lemma lookup_after_store:
  assumes "s \<noteq> []" and "v \<noteq> []" and "s \<noteq> v"
    and "getCacheKey h s' tgt' src' = getCacheKey h s tgt src"
  shows "fst (getCachedTranslation h s' tgt' src' (setCachedTranslation h s v tgt src st)) = Some v"
  using assms
  by (simp add: getCachedTranslation_def setCachedTranslation_def truthy_def Let_def update_conv')

lemma lookup_other_key:
  assumes "getCacheKey h s' tgt' src' \<noteq> getCacheKey h s tgt src"
  shows "fst (getCachedTranslation h s' tgt' src' (setCachedTranslation h s v tgt src st))
       = fst (getCachedTranslation h s' tgt' src' st)"
  using assms
  by (auto simp add: getCachedTranslation_def setCachedTranslation_def truthy_def Let_def update_conv' split: option.splits)


lemma distinct_keys_setCachedTranslation:
  "distinct (map fst (translationCache st))
   \<Longrightarrow> distinct (map fst (translationCache (setCachedTranslation h s v tgt src st)))"
  by (simp add: setCachedTranslation_def Let_def distinct_update)

text \<open>
  Claim C6.  The claim names the arguments (text, sourceLang, targetLang); the code takes
  them as (text, targetLanguage, sourceLanguage), and the same pair is meant on both sides.
  For a text \<open>tx\<close> and values \<open>v\<close>, \<open>v'\<close> that the store accepts (non-empty and different
  from the text): a lookup after the store returns exactly \<open>v\<close>; a second store under the
  same text and languages overwrites, and the lookup then returns \<open>v'\<close>; a text \<open>tx'\<close>
  that differs from \<open>tx\<close> only in letter case, with white space added at both ends, has
  the same key and finds the stored value; and for two different target languages and the
  same source language the keys differ, so that each lookup finds the value stored for
  its own target.  This holds for every hash function \<open>h\<close>.  White space and letter
  case are JavaScript's, on all code units below 256: the no-break space is white space,
  and an accented capital is the same letter as its small form.
\<close>

theorem cache_lookup_after_store:
  assumes "tx \<noteq> []" and "v \<noteq> []" and "tx \<noteq> v"
    and "v' \<noteq> []" and "tx \<noteq> v'"
    and "\<forall>c \<in> set pre. isWhiteSpace c" and "\<forall>c \<in> set post. isWhiteSpace c"
    and "list_all2 sameLetter tx tx'"
    and "tgt \<noteq> tgt'"
  shows "fst (getCachedTranslation h tx tgt src (setCachedTranslation h tx v tgt src st)) = Some v
     \<and> fst (getCachedTranslation h tx tgt src
            (setCachedTranslation h tx v' tgt src (setCachedTranslation h tx v tgt src st)))
         = Some v'
     \<and> getCacheKey h (pre @ tx' @ post) tgt src = getCacheKey h tx tgt src
     \<and> fst (getCachedTranslation h (pre @ tx' @ post) tgt src
            (setCachedTranslation h tx v tgt src st)) = Some v
     \<and> getCacheKey h tx tgt src \<noteq> getCacheKey h tx tgt' src
     \<and> fst (getCachedTranslation h tx tgt src
            (setCachedTranslation h tx v' tgt' src (setCachedTranslation h tx v tgt src st)))
         = Some v
     \<and> fst (getCachedTranslation h tx tgt' src
            (setCachedTranslation h tx v' tgt' src (setCachedTranslation h tx v tgt src st)))
         = Some v'"
proof -
  have k: "getCacheKey h (pre @ tx' @ post) tgt src = getCacheKey h tx tgt src"
    using assms(6,7,8) by (rule getCacheKey_normalized)
  have d: "getCacheKey h tx tgt src \<noteq> getCacheKey h tx tgt' src"
    using assms(9) by (simp add: getCacheKey_target_inj)
  have "fst (getCachedTranslation h tx tgt src
            (setCachedTranslation h tx v' tgt' src (setCachedTranslation h tx v tgt src st)))
      = fst (getCachedTranslation h tx tgt src (setCachedTranslation h tx v tgt src st))"
    using d by (rule lookup_other_key)
  then show ?thesis
    using assms(1-5) k d by (simp add: lookup_after_store)
qed

theorem cache_lookup_after_store_witness:
  "fst (getCachedTranslation (\<lambda>s. s) ''Hello'' ''es'' ''en''
          (setCachedTranslation (\<lambda>s. s) ''Hello'' ''Hola'' ''es'' ''en'' initialState)) = Some ''Hola''
   \<and> fst (getCachedTranslation (\<lambda>s. s) ''Hello'' ''es'' ''en''
          (setCachedTranslation (\<lambda>s. s) ''Hello'' ''Buenos dias'' ''es'' ''en''
             (setCachedTranslation (\<lambda>s. s) ''Hello'' ''Hola'' ''es'' ''en'' initialState)))
       = Some ''Buenos dias''
   \<and> getCacheKey (\<lambda>s. s) (''  '' @ ''hELLO'' @ '' '') ''es'' ''en''
       = getCacheKey (\<lambda>s. s) ''Hello'' ''es'' ''en''
   \<and> getCacheKey (\<lambda>s. s) ''Hello'' ''es'' ''en'' \<noteq> getCacheKey (\<lambda>s. s) ''Hello'' ''fr'' ''en''
   \<and> getCacheKey (\<lambda>s. s) ([CHR 0xA0] @ [CHR 0xC9, CHR ''T'', CHR 0xC9] @ [CHR 0x09, CHR 0xA0])
         ''es'' ''en''
       = getCacheKey (\<lambda>s. s) [CHR 0xE9, CHR ''t'', CHR 0xE9] ''es'' ''en''
   \<and> fst (getCachedTranslation (\<lambda>s. s)
            ([CHR 0xA0] @ [CHR 0xC9, CHR ''T'', CHR 0xC9] @ [CHR 0x09, CHR 0xA0]) ''es'' ''en''
          (setCachedTranslation (\<lambda>s. s) [CHR 0xE9, CHR ''t'', CHR 0xE9] ''verano'' ''es'' ''en''
             initialState)) = Some ''verano''"
proof -
  have ws: "\<forall>c \<in> set ''  ''. isWhiteSpace c" "\<forall>c \<in> set '' ''. isWhiteSpace c"
    by (simp_all add: isWhiteSpace_def)
  have sl: "list_all2 sameLetter ''Hello'' ''hELLO''"
    by (simp add: sameLetter_def isUpperCase_def)
  have ws': "\<forall>c \<in> set [CHR 0xA0]. isWhiteSpace c" "\<forall>c \<in> set [CHR 0x09, CHR 0xA0]. isWhiteSpace c"
    by (simp_all add: isWhiteSpace_def)
  have sl': "list_all2 sameLetter [CHR 0xE9, CHR ''t'', CHR 0xE9] [CHR 0xC9, CHR ''T'', CHR 0xC9]"
    by (simp add: sameLetter_def isUpperCase_def)
  have ne: "[CHR 0xE9, CHR ''t'', CHR 0xE9] \<noteq> ''verano''"
    by simp
  show ?thesis
    using cache_lookup_after_store [where tx = "''Hello''" and v = "''Hola''"
        and v' = "''Buenos dias''" and pre = "''  ''" and post = "'' ''"
        and tx' = "''hELLO''" and tgt = "''es''" and tgt' = "''fr''" and src = "''en''"
        and h = "\<lambda>s. s" and st = initialState, OF _ _ _ _ _ ws sl]
      cache_lookup_after_store [where tx = "[CHR 0xE9, CHR ''t'', CHR 0xE9]" and v = "''verano''"
        and v' = "''verano''" and pre = "[CHR 0xA0]" and post = "[CHR 0x09, CHR 0xA0]"
        and tx' = "[CHR 0xC9, CHR ''T'', CHR 0xC9]" and tgt = "''es''" and tgt' = "''fr''"
        and src = "''en''" and h = "\<lambda>s. s" and st = initialState, OF _ _ ne _ ne ws' sl']
    by simp
qed

section \<open>Rounding to doubles\<close>

lemma bitLength_bounds:
  "0 < n \<Longrightarrow> 2 ^ (bitLength n - 1) \<le> n \<and> n < 2 ^ bitLength n"
proof (induction n rule: bitLength.induct)
  case (1 n)
  show ?case
  proof (cases "n = 1")
    case True
    then show ?thesis by (simp add: bitLength.simps [of 1] bitLength.simps [of 0])
  next
    case False
    with 1(2) have k: "0 < n div 2" by simp
    have ih: "2 ^ (bitLength (n div 2) - 1) \<le> n div 2 \<and> n div 2 < 2 ^ bitLength (n div 2)"
      using 1(1) [OF 1(2) k] .
    have pos: "0 < bitLength (n div 2)"
      using k by (subst bitLength.simps) simp
    have e: "bitLength n = Suc (bitLength (n div 2))"
      using 1(2) by (subst bitLength.simps) simp
    have p: "(2::int) ^ bitLength (n div 2) = 2 * 2 ^ (bitLength (n div 2) - 1)"
      using pos by (cases "bitLength (n div 2)") simp_all
    have lo: "2 * (n div 2) \<le> n" and hi: "n \<le> 2 * (n div 2) + 1"
      by presburger+
    show ?thesis
      using ih lo hi p by (simp add: e)
  qed
qed


lemma bitLength_pos: "0 < n \<Longrightarrow> 0 < bitLength n"
  by (subst bitLength.simps) simp

lemma exponentOf_bounds:
  assumes "0 < x"
  shows "2 powi exponentOf x \<le> x \<and> x < 2 powi (exponentOf x + 1)"
proof -
  obtain a b where q: "quotient_of x = (a, b)" by (cases "quotient_of x")
  have b: "0 < b" using q by (rule quotient_of_denom_pos)
  have x: "x = of_int a / of_int b" using q by (rule quotient_of_div)
  have a: "0 < a" using assms b x by (simp add: zero_less_divide_iff)
  define la lb where "la = bitLength a" and "lb = bitLength b"
  define d where "d = int la - int lb"
  have la: "(2::int) ^ (la - 1) \<le> a" "a < 2 ^ la" "0 < la"
    using bitLength_bounds [OF a] bitLength_pos [OF a] by (simp_all add: la_def)
  have lb: "(2::int) ^ (lb - 1) \<le> b" "b < 2 ^ lb" "0 < lb"
    using bitLength_bounds [OF b] bitLength_pos [OF b] by (simp_all add: lb_def)
  have ra: "(2::rat) ^ (la - 1) \<le> of_int a" "(of_int a :: rat) < 2 ^ la"
    using la(1,2) by (metis of_int_le_iff of_int_numeral of_int_power, metis of_int_less_iff of_int_numeral of_int_power)
  have rb: "(2::rat) ^ (lb - 1) \<le> of_int b" "(of_int b :: rat) < 2 ^ lb"
    using lb(1,2) by (metis of_int_le_iff of_int_numeral of_int_power, metis of_int_less_iff of_int_numeral of_int_power)
  have bpos: "(0::rat) < of_int b" using b by simp
  have hi: "x < 2 powi (d + 1)"
  proof -
    have "x * 2 ^ (lb - 1) \<le> x * of_int b"
      using assms rb(1) by (simp add: mult_left_mono)
    also have "\<dots> = of_int a" using bpos by (simp add: x)
    also have "\<dots> < 2 ^ la" by (rule ra(2))
    finally have "x < 2 ^ la / 2 ^ (lb - 1)"
      by (simp add: pos_less_divide_eq)
    also have "\<dots> = 2 powi (int la - int (lb - 1))"
      by (simp add: power_int_diff)
    also have "int la - int (lb - 1) = d + 1"
      using lb(3) by (simp add: d_def)
    finally show ?thesis .
  qed
  have lo: "2 powi (d - 1) < x"
  proof -
    have "2 powi (d - 1) = (2::rat) ^ (la - 1) / 2 ^ lb"
    proof -
      have "d - 1 = int (la - 1) - int lb" using la(3) by (simp add: d_def)
      then show ?thesis by (simp add: power_int_diff)
    qed
    also have "\<dots> \<le> of_int a / 2 ^ lb"
      using ra(1) by (simp add: divide_right_mono)
    also have "\<dots> < of_int a / of_int b"
      using rb(2) bpos a by (simp add: divide_strict_left_mono)
    finally show ?thesis by (simp add: x)
  qed
  have e: "exponentOf x = (if 2 powi d \<le> x then d else d - 1)"
    by (simp add: exponentOf_def q d_def la_def lb_def Let_def)
  show ?thesis
  proof (cases "2 powi d \<le> x")
    case True
    then show ?thesis using hi by (simp add: e)
  next
    case False
    then show ?thesis using lo by (simp add: e)
  qed
qed

lemma powi2_less_iff: "(2::rat) powi m < 2 powi n \<longleftrightarrow> m < n"
proof
  assume h: "(2::rat) powi m < 2 powi n"
  show "m < n"
  proof (rule ccontr)
    assume "\<not> m < n"
    then have "n \<le> m" by simp
    then have "(2::rat) powi n \<le> 2 powi m" by (intro power_int_increasing) simp_all
    with h show False by simp
  qed
next
  assume "m < n"
  then show "(2::rat) powi m < 2 powi n" by (intro power_int_strict_increasing) simp_all
qed

lemma powi2_le_iff: "(2::rat) powi m \<le> 2 powi n \<longleftrightarrow> m \<le> n"
  using powi2_less_iff [of n m] by (auto simp: not_less [symmetric])

lemma exponentOf_unique:
  assumes "0 < x" and "2 powi k \<le> x" and "x < 2 powi (k + 1)"
  shows "exponentOf x = k"
proof -
  have b: "2 powi exponentOf x \<le> x" "x < 2 powi (exponentOf x + 1)"
    using exponentOf_bounds [OF assms(1)] by simp_all
  have "(2::rat) powi k < 2 powi (exponentOf x + 1)"
    using assms(2) b(2) by simp
  then have 1: "k < exponentOf x + 1"
    by (simp add: powi2_less_iff)
  have "(2::rat) powi exponentOf x < 2 powi (k + 1)"
    using assms(3) b(1) by simp
  then have 2: "exponentOf x < k + 1"
    by (simp add: powi2_less_iff)
  show ?thesis using 1 2 by simp
qed

lemma roundHalfEven_error: "\<bar>of_int (roundHalfEven x) - x\<bar> \<le> 1 / 2"
proof -
  have "of_int \<lfloor>x\<rfloor> \<le> x" "x < of_int \<lfloor>x\<rfloor> + 1" by linarith+
  then show ?thesis
    by (auto simp: roundHalfEven_def Let_def abs_le_iff)
qed

lemma roundHalfEven_of_int [simp]: "roundHalfEven (of_int k) = k"
  by (simp add: roundHalfEven_def)

lemma roundHalfEven_le: "x \<le> of_int n \<Longrightarrow> roundHalfEven x \<le> n"
proof -
  assume h: "x \<le> of_int n"
  show ?thesis
  proof (cases "x = of_int n")
    case True
    then show ?thesis by simp
  next
    case False
    with h have "x < of_int n" by simp
    then have f: "\<lfloor>x\<rfloor> < n" by (simp add: floor_less_iff)
    then have "\<lfloor>x\<rfloor> + 1 \<le> n" by simp
    then show ?thesis using f by (auto simp: roundHalfEven_def Let_def)
  qed
qed

lemma roundHalfEven_ge: "of_int n \<le> x \<Longrightarrow> n \<le> roundHalfEven x"
proof -
  assume "of_int n \<le> x"
  then have "n \<le> \<lfloor>x\<rfloor>" by (simp add: le_floor_iff)
  then show ?thesis by (auto simp: roundHalfEven_def Let_def)
qed


lemma roundDouble_pos_cases:
  assumes "0 < x"
  obtains r u where "roundDouble x = of_int r * u" and "0 < u"
    and "u = 2 powi (exponentOf x - 52)" and "r = roundHalfEven (x / u)"
    and "2 ^ 52 \<le> x / u" and "x / u < 2 ^ 53"
proof -
  define u :: rat where "u = 2 powi (exponentOf x - 52)"
  define r where "r = roundHalfEven (x / u)"
  have u: "0 < u" by (simp add: u_def)
  have e: "2 powi exponentOf x \<le> x" "x < 2 powi (exponentOf x + 1)"
    using exponentOf_bounds [OF assms] by simp_all
  have u52: "u * 2 ^ 52 = 2 powi exponentOf x"
    by (simp add: u_def power_int_diff)
  have u53: "u * 2 ^ 53 = 2 powi (exponentOf x + 1)"
    by (simp add: u_def power_int_diff power_int_add)
  have lo: "2 ^ 52 \<le> x / u"
    using e(1) u u52 by (simp add: pos_le_divide_eq mult.commute)
  have hi: "x / u < 2 ^ 53"
    using e(2) u u53 by (simp add: pos_divide_less_eq mult.commute)
  have "roundDouble x = of_int r * u"
    using assms by (simp add: roundDouble_def Let_def u_def r_def)
  then show ?thesis
    using that u lo hi u_def r_def by blast
qed

lemma roundDouble_error:
  assumes "0 < x"
  shows "\<bar>roundDouble x - x\<bar> \<le> x / 2 ^ 53"
proof -
  obtain r u where ru: "roundDouble x = of_int r * u" "0 < u" "r = roundHalfEven (x / u)"
      "2 ^ 52 \<le> x / u"
    using roundDouble_pos_cases [OF assms] by metis
  have "\<bar>of_int r - x / u\<bar> \<le> 1 / 2"
    unfolding ru(3) by (rule roundHalfEven_error)
  then have "\<bar>of_int r - x / u\<bar> * u \<le> 1 / 2 * u"
    using ru(2) by (intro mult_right_mono) simp_all
  moreover have "\<bar>of_int r - x / u\<bar> * u = \<bar>of_int r * u - x\<bar>"
  proof -
    have "\<bar>of_int r - x / u\<bar> * u = \<bar>(of_int r - x / u) * u\<bar>"
      using ru(2) by (simp add: abs_mult)
    also have "(of_int r - x / u) * u = of_int r * u - x"
      using ru(2) by (simp add: left_diff_distrib)
    finally show ?thesis .
  qed
  ultimately have a: "\<bar>roundDouble x - x\<bar> \<le> u / 2"
    by (simp add: ru(1))
  have "u * 2 ^ 52 \<le> x"
    using ru(2,4) by (simp add: pos_le_divide_eq mult.commute)
  then have "u / 2 \<le> x / 2 ^ 53"
    by (simp add: field_simps)
  with a show ?thesis by simp
qed

lemma roundDouble_pos:
  assumes "0 < x"
  shows "0 < roundDouble x"
proof -
  obtain r u where ru: "roundDouble x = of_int r * u" "0 < u" "r = roundHalfEven (x / u)"
      "2 ^ 52 \<le> x / u"
    using roundDouble_pos_cases [OF assms] by metis
  have "(of_int (2 ^ 52) :: rat) \<le> x / u" using ru(4) by simp
  then have "2 ^ 52 \<le> r" unfolding ru(3) by (rule roundHalfEven_ge)
  then have "0 < r" by simp
  then show ?thesis using ru(1,2) by simp
qed

lemma roundDouble_top:
  assumes "0 < x"
  shows "roundDouble x \<le> 2 powi (exponentOf x + 1)"
proof -
  obtain r u where ru: "roundDouble x = of_int r * u" "0 < u" "u = 2 powi (exponentOf x - 52)"
      "r = roundHalfEven (x / u)" "x / u < 2 ^ 53"
    using roundDouble_pos_cases [OF assms] by metis
  have "x / u \<le> of_int (2 ^ 53)" using ru(5) by simp
  then have "r \<le> 2 ^ 53" unfolding ru(4) by (rule roundHalfEven_le)
  then have "(of_int r :: rat) \<le> of_int (2 ^ 53)" by (simp only: of_int_le_iff)
  then have "of_int r * u \<le> 2 ^ 53 * u"
    using ru(2) by (simp add: mult_right_mono)
  also have "2 ^ 53 * u = 2 powi (exponentOf x + 1)"
    by (simp add: ru(3) power_int_diff power_int_add)
  finally show ?thesis by (simp add: ru(1))
qed

lemma roundDouble_below_fixed:
  assumes "0 < x" and "x \<le> y" and "roundDouble y = y"
  shows "roundDouble x \<le> y"
proof -
  have y: "0 < y" using assms(1,2) by simp
  have ex: "2 powi exponentOf x \<le> x" using exponentOf_bounds [OF assms(1)] by simp
  have ey: "2 powi exponentOf y \<le> y" "y < 2 powi (exponentOf y + 1)"
    using exponentOf_bounds [OF y] by simp_all
  have "(2::rat) powi exponentOf x < 2 powi (exponentOf y + 1)"
    using ex assms(2) ey(2) by simp
  then have le: "exponentOf x \<le> exponentOf y"
    by (simp add: powi2_less_iff)
  show ?thesis
  proof (cases "exponentOf x = exponentOf y")
    case False
    with le have "exponentOf x + 1 \<le> exponentOf y" by simp
    then have "(2::rat) powi (exponentOf x + 1) \<le> 2 powi exponentOf y"
      by (simp add: powi2_le_iff)
    then show ?thesis
      using roundDouble_top [OF assms(1)] ey(1) by simp
  next
    case True
    obtain r u where ru: "roundDouble x = of_int r * u" "0 < u" "u = 2 powi (exponentOf x - 52)"
        "r = roundHalfEven (x / u)"
      using roundDouble_pos_cases [OF assms(1)] by metis
    obtain r' u' where ru': "roundDouble y = of_int r' * u'" "u' = 2 powi (exponentOf y - 52)"
      using roundDouble_pos_cases [OF y] by metis
    have uu: "u' = u" by (simp add: ru(3) ru'(2) True)
    have yr: "y = of_int r' * u" using assms(3) ru'(1) uu by simp
    have "x / u \<le> y / u" using assms(2) ru(2) by (simp add: divide_right_mono)
    also have "y / u = of_int r'" using ru(2) by (simp add: yr)
    finally have "r \<le> r'" unfolding ru(4) by (rule roundHalfEven_le)
    then have "(of_int r :: rat) \<le> of_int r'" by (simp only: of_int_le_iff)
    then have "of_int r * u \<le> of_int r' * u" using ru(2) by (simp add: mult_right_mono)
    then show ?thesis by (simp add: ru(1) yr)
  qed
qed

lemma roundDouble_of_int:
  assumes "0 < n" and "n < 2 ^ 53"
  shows "roundDouble (of_int n) = of_int n"
proof -
  let ?x = "of_int n :: rat"
  have x: "0 < ?x" using assms(1) by simp
  have e: "2 powi exponentOf ?x \<le> ?x" "?x < 2 powi (exponentOf ?x + 1)"
    using exponentOf_bounds [OF x] by simp_all
  have "?x < 2 ^ 53" using assms(2) by (metis of_int_less_iff of_int_numeral of_int_power)
  then have "(2::rat) powi exponentOf ?x < 2 powi 53" using e(1) by simp
  then have le: "exponentOf ?x < 53" by (simp only: powi2_less_iff)
  define k where "k = nat (52 - exponentOf ?x)"
  have ek: "exponentOf ?x - 52 = - int k" using le by (simp add: k_def)
  obtain r u where ru: "roundDouble ?x = of_int r * u" "0 < u" "u = 2 powi (exponentOf ?x - 52)"
      "r = roundHalfEven (?x / u)"
    using roundDouble_pos_cases [OF x] by metis
  have u: "u = 1 / 2 ^ k" by (simp add: ru(3) ek power_int_minus_divide)
  have "?x / u = of_int (n * 2 ^ k)" by (simp add: u)
  then have "r = n * 2 ^ k" unfolding ru(4) by (simp only: roundHalfEven_of_int)
  then show ?thesis by (simp add: ru(1) u)
qed

lemma roundDouble_of_nat: "n < 2 ^ 53 \<Longrightarrow> roundDouble (of_nat n) = of_nat n"
proof (cases "n = 0")
  case True
  then show ?thesis by (simp add: roundDouble_def)
next
  case False
  assume "n < 2 ^ 53"
  then have "int n < 2 ^ 53" by (metis of_nat_less_iff of_nat_numeral of_nat_power)
  then show ?thesis
    using False roundDouble_of_int [of "int n"] by simp
qed


lemma roundDouble_one: "roundDouble 1 = 1"
  using roundDouble_of_int [of 1] by simp

lemma roundDouble_hundred: "roundDouble 100 = 100"
  using roundDouble_of_int [of 100] by simp

lemma roundDouble_zero [simp]: "roundDouble 0 = 0"
  by (simp add: roundDouble_def)

lemma percentage_rounding:
  assumes "0 < q" and "q \<le> 1"
  shows "0 < roundDouble (roundDouble q * 100)"
    and "roundDouble (roundDouble q * 100) \<le> 100"
    and "\<bar>roundDouble (roundDouble q * 100) - 100 * q\<bar> \<le> 100 * q * (2 / 2 ^ 53 + 1 / 2 ^ 106)"
proof -
  define q' where "q' = roundDouble q"
  define p' where "p' = roundDouble (q' * 100)"
  have q'pos: "0 < q'" unfolding q'_def using assms(1) by (rule roundDouble_pos)
  have q'le: "q' \<le> 1"
    unfolding q'_def using assms roundDouble_one by (rule roundDouble_below_fixed)
  have ypos: "0 < q' * 100" using q'pos by simp
  have yle: "q' * 100 \<le> 100" using q'le by simp
  show "0 < roundDouble (roundDouble q * 100)"
    using roundDouble_pos [OF ypos] by (simp add: q'_def)
  show "roundDouble (roundDouble q * 100) \<le> 100"
    using roundDouble_below_fixed [OF ypos yle roundDouble_hundred] by (simp add: q'_def)
  have e1: "\<bar>q' - q\<bar> \<le> q / 2 ^ 53"
    unfolding q'_def using assms(1) by (rule roundDouble_error)
  have e2: "\<bar>p' - q' * 100\<bar> \<le> q' * 100 / 2 ^ 53"
    unfolding p'_def using ypos by (rule roundDouble_error)
  have q'up: "q' \<le> q + q / 2 ^ 53" using e1 abs_ge_self [of "q' - q"] by linarith
  have sc: "\<bar>100 * (q' - q)\<bar> = 100 * \<bar>q' - q\<bar>"
    by (simp only: abs_mult abs_numeral)
  have "p' - 100 * q = (p' - q' * 100) + 100 * (q' - q)"
    by (simp add: algebra_simps)
  then have "\<bar>p' - 100 * q\<bar> \<le> \<bar>p' - q' * 100\<bar> + \<bar>100 * (q' - q)\<bar>"
    by (simp only: abs_triangle_ineq)
  then have "\<bar>p' - 100 * q\<bar> \<le> \<bar>p' - q' * 100\<bar> + 100 * \<bar>q' - q\<bar>"
    by (simp only: sc)
  also have "\<dots> \<le> q' * 100 / 2 ^ 53 + 100 * (q / 2 ^ 53)"
    using e1 e2 by (intro add_mono mult_left_mono) simp_all
  also have "\<dots> \<le> (q + q / 2 ^ 53) * 100 / 2 ^ 53 + 100 * (q / 2 ^ 53)"
    using q'up by (simp add: divide_right_mono)
  also have "\<dots> = 100 * q * (2 / 2 ^ 53 + 1 / 2 ^ 106)"
    by (simp add: field_simps)
  finally show "\<bar>roundDouble (roundDouble q * 100) - 100 * q\<bar>
      \<le> 100 * q * (2 / 2 ^ 53 + 1 / 2 ^ 106)"
    by (simp add: p'_def q'_def)
qed

lemma hitRate_exact_counters:
  assumes "h + m < 2 ^ 53"
  shows "hitRate (getCacheStats (st\<lparr>cacheHits := h, cacheMisses := m\<rparr>))
     = (if h + m = 0 then 0 else roundDouble (roundDouble (of_nat h / of_nat (h + m)) * 100))"
proof -
  have h: "h < 2 ^ 53" and m: "m < 2 ^ 53" using assms by simp_all
  have s: "roundDouble (of_nat h + of_nat m) = of_nat (h + m)"
    using roundDouble_of_nat [OF assms] by simp
  have p: "(0::rat) < of_nat (h + m) \<longleftrightarrow> h + m \<noteq> 0"
    by (simp only: of_nat_0_less_iff) simp
  show ?thesis
    using p by (simp add: getCacheStats_def jsAdd_def jsDiv_def jsMul_def toNumber_def
        roundDouble_of_nat [OF h] roundDouble_of_nat [OF m] s del: of_nat_add)
qed

section \<open>Cache statistics\<close>

text \<open>
  Claim C9 as the specification states it fails: with one hit and one miss the code
  reports a hit rate of 50, which is not 1 / (1 + 1).
\<close>

theorem hitRate_fraction_counterexample:
  "hitRate (getCacheStats (initialState\<lparr>cacheHits := 1, cacheMisses := 1\<rparr>)) = 50
   \<and> hitRate (getCacheStats (initialState\<lparr>cacheHits := 1, cacheMisses := 1\<rparr>))
       \<noteq> of_nat (hits (getCacheStats (initialState\<lparr>cacheHits := 1, cacheMisses := 1\<rparr>)))
           / of_nat (hits (getCacheStats (initialState\<lparr>cacheHits := 1, cacheMisses := 1\<rparr>))
                     + misses (getCacheStats (initialState\<lparr>cacheHits := 1, cacheMisses := 1\<rparr>)))"
  by code_simp

text \<open>
  Claim C9, amended.  While fewer than \<open>2 ^ 53\<close> lookups have been counted (so that the
  counters and their sum are exact numbers), the statistics hold the current entry count
  as size (the number of keys of the map, the cache holding one pair per key), the hit
  and miss counters, and the hit rate as a percentage: 0 when no lookup has occurred, and
  otherwise the double nearest to 100 times the double nearest to hits / (hits + misses).
  That value lies between 0 and 100 and differs from 100 times hits / (hits + misses) by
  at most the relative error of two roundings, \<open>2 / 2 ^ 53 + 1 / 2 ^ 106\<close>.
\<close>

theorem getCacheStats_percentage:
  assumes "distinct (map fst (translationCache st))"
    and "cacheHits st + cacheMisses st < 2 ^ 53"
  shows "size' (getCacheStats st) = card (dom (map_of (translationCache st)))
     \<and> hits (getCacheStats st) = cacheHits st
     \<and> misses (getCacheStats st) = cacheMisses st
     \<and> hitRate (getCacheStats st)
         = (if cacheHits st + cacheMisses st = 0 then 0
            else roundDouble
                   (roundDouble (of_nat (cacheHits st) / of_nat (cacheHits st + cacheMisses st))
                    * 100))
     \<and> 0 \<le> hitRate (getCacheStats st) \<and> hitRate (getCacheStats st) \<le> 100
     \<and> \<bar>hitRate (getCacheStats st)
          - 100 * (of_nat (cacheHits st) / of_nat (cacheHits st + cacheMisses st))\<bar>
         \<le> 100 * (of_nat (cacheHits st) / of_nat (cacheHits st + cacheMisses st))
             * (2 / 2 ^ 53 + 1 / 2 ^ 106)"
proof -
  define q :: rat where "q = of_nat (cacheHits st) / of_nat (cacheHits st + cacheMisses st)"
  have c: "card (dom (map_of (translationCache st))) = length (translationCache st)"
    using distinct_card [OF assms(1)] by (simp add: dom_map_of_conv_image_fst)
  have hr: "hitRate (getCacheStats st)
      = (if cacheHits st + cacheMisses st = 0 then 0 else roundDouble (roundDouble q * 100))"
    using hitRate_exact_counters [OF assms(2), of st] by (simp add: q_def)
  have q0: "0 \<le> q"
    unfolding q_def by (rule divide_nonneg_nonneg) simp_all
  have q1: "q \<le> 1"
    unfolding q_def by (cases "cacheHits st + cacheMisses st = 0") (simp_all add: divide_le_eq)
  have b: "0 \<le> hitRate (getCacheStats st) \<and> hitRate (getCacheStats st) \<le> 100
     \<and> \<bar>hitRate (getCacheStats st) - 100 * q\<bar> \<le> 100 * q * (2 / 2 ^ 53 + 1 / 2 ^ 106)"
  proof (cases "cacheHits st + cacheMisses st = 0")
    case True
    then show ?thesis by (simp add: hr q_def)
  next
    case False
    show ?thesis
    proof (cases "q = 0")
      case True
      then show ?thesis using False by (simp add: hr)
    next
      case nz: False
      with q0 have qp: "0 < q" by simp
      have hr': "hitRate (getCacheStats st) = roundDouble (roundDouble q * 100)"
        by (simp only: hr False if_False)
      note pr = percentage_rounding [OF qp q1]
      show ?thesis
        unfolding hr' using pr(1) [THEN less_imp_le] pr(2) pr(3) by blast
    qed
  qed
  have "size' (getCacheStats st) = card (dom (map_of (translationCache st)))
     \<and> hits (getCacheStats st) = cacheHits st \<and> misses (getCacheStats st) = cacheMisses st"
    using c by (simp add: getCacheStats_def)
  then show ?thesis
    using b hr unfolding q_def by blast
qed

theorem getCacheStats_percentage_witness:
  "size' (getCacheStats \<lparr>translationCache = [(''en-es-hello'', ''Hola''), (''en-fr-hello'', ''Salut'')],
        cacheHits = 7, cacheMisses = 18, providerCalls = [], sleeps = []\<rparr>) = 2
   \<and> hitRate (getCacheStats \<lparr>translationCache = [(''en-es-hello'', ''Hola''), (''en-fr-hello'', ''Salut'')],
        cacheHits = 7, cacheMisses = 18, providerCalls = [], sleeps = []\<rparr>) = 28 + 1 / 2 ^ 48
   \<and> hitRate (getCacheStats \<lparr>translationCache = [(''en-es-hello'', ''Hola''), (''en-fr-hello'', ''Salut'')],
        cacheHits = 7, cacheMisses = 18, providerCalls = [], sleeps = []\<rparr>) \<le> 100
   \<and> hitRate (getCacheStats initialState) = 0"
proof -
  let ?s = "\<lparr>translationCache = [(''en-es-hello'', ''Hola''), (''en-fr-hello'', ''Salut'')],
        cacheHits = 7, cacheMisses = 18, providerCalls = [], sleeps = []\<rparr>"
  have d: "distinct (map fst (translationCache ?s))" "distinct (map fst (translationCache initialState))"
    by (simp_all add: initialState_def)
  have n: "cacheHits ?s + cacheMisses ?s < 2 ^ 53"
    "cacheHits initialState + cacheMisses initialState < 2 ^ 53"
    by (simp_all add: initialState_def)
  have v: "roundDouble (roundDouble (of_nat 7 / of_nat (7 + 18)) * 100) = 28 + 1 / 2 ^ 48"
    by code_simp
  note a = getCacheStats_percentage [OF d(1) n(1)]
  note b = getCacheStats_percentage [OF d(2) n(2)]
  have 1: "size' (getCacheStats ?s) = 2"
    using a by simp
  have 2: "hitRate (getCacheStats ?s) = 28 + 1 / 2 ^ 48"
    using a v by simp
  have 3: "hitRate (getCacheStats ?s) \<le> 100"
    using a by blast
  have 4: "hitRate (getCacheStats initialState) = 0"
    using b by (simp add: initialState_def)
  show ?thesis
    using 1 2 3 4 by blast
qed

section \<open>The routes, branch by branch\<close>

lemma status_errorResponse [simp]: "status (errorResponse c m) = c" "error (errorResponse c m) = Some m"
  by (simp_all add: errorResponse_def emptyResponse_def)

lemma POST_found:
  assumes "documentIdOf req \<noteq> []" and "targetLanguageOf req \<noteq> []"
    and "findMetadata E (documentIdOf req) = Some m"
  shows "POST E req st =
     (let cs = findChunks E (title m); tgt = targetLanguageOf req; src = sourceLanguageOf m in
      if length cs = 0 then (errorResponse 404 ''No document chunks found'', st)
      else if length cs > 100 then (tooLargePOST E m (formatOf req) (length cs), st)
      else if tgt = src
      then (generateDocumentResponse (join ''\<newline>\<newline>'' (map content cs)) (length cs), st)
      else if fst (translateText E ''test'' tgt src st) = Inr ''test''
      then (unavailablePOST E m (formatOf req) (length cs), snd (translateText E ''test'' tgt src st))
      else (generateDocumentResponse
              (join ''\<newline>\<newline>'' (fst (chunkLoopPOST E tgt src cs 0 [] (snd (translateText E ''test'' tgt src st)))))
              (length cs),
            snd (chunkLoopPOST E tgt src cs 0 [] (snd (translateText E ''test'' tgt src st)))))"
  using assms by (simp add: POST_def Let_def truthy_def split: prod.splits)

lemma GET_found:
  assumes "binaryDownload q" and "findMetadataWithChunks E (the (qDocumentId q)) = Some m"
  shows "GET E q st =
     (let cs = findChunks E (the (qDocumentId q)); tgt = the (qTargetLanguage q);
          src = sourceLanguageOf m in
      if length cs = 0 then (errorResponse 404 ''No document chunks found'', st)
      else if length cs > 50 \<and> \<not> skipTranslationOf q then (tooLargeGET (length cs), st)
      else if skipTranslationOf q \<or> tgt = src
      then ((emptyResponse 200)\<lparr>body := Some (join ''\<newline>\<newline>'' (map content cs))\<rparr>, st)
      else ((emptyResponse 200)\<lparr>body := Some (join ''\<newline>\<newline>''
               (fst (chunkLoopGET E tgt src cs 0 [] st)))\<rparr>,
            snd (chunkLoopGET E tgt src cs 0 [] st)))"
  using assms by (simp add: GET_def Let_def split: prod.splits)


section \<open>Documents without chunks\<close>

text \<open>
  Claim C10 as the specification states it fails: for a document whose metadata is found
  and whose store returns no chunk, both routes answer with status 404 and an
  \<^verbatim>\<open>error\<close> field.
\<close>

theorem zero_chunks_error_counterexample:
  "status (fst (POST (exampleEnv exampleProvider []) exampleRequest initialState)) = 404
   \<and> error (fst (POST (exampleEnv exampleProvider []) exampleRequest initialState))
       = Some ''No document chunks found''
   \<and> status (fst (GET (exampleEnv exampleProvider []) exampleQuery initialState)) = 404
   \<and> error (fst (GET (exampleEnv exampleProvider []) exampleQuery initialState))
       = Some ''No document chunks found''"
  by (simp add: POST_def GET_def exampleEnv_def exampleRequest_def exampleQuery_def documentIdOf_def targetLanguageOf_def truthy_def binaryDownload_def isTruthyParam_def)

text \<open>
  Claim C10, amended.  For every document whose metadata is found but whose store returns
  zero chunks, both routes report a not-found error (status 404, error
  \<^verbatim>\<open>No document chunks found\<close>) and change nothing.
\<close>

theorem zero_chunks_not_found:
  "(documentIdOf req \<noteq> [] \<and> targetLanguageOf req \<noteq> []
      \<and> findMetadata E (documentIdOf req) = Some m \<and> findChunks E (title m) = []
    \<longrightarrow> POST E req st = (errorResponse 404 ''No document chunks found'', st)
        \<and> status (fst (POST E req st)) = 404 \<and> error (fst (POST E req st)) \<noteq> None)
   \<and> (binaryDownload q \<and> findMetadataWithChunks E (the (qDocumentId q)) = Some m'
      \<and> findChunks E (the (qDocumentId q)) = []
    \<longrightarrow> GET E q st = (errorResponse 404 ''No document chunks found'', st)
        \<and> status (fst (GET E q st)) = 404 \<and> error (fst (GET E q st)) \<noteq> None)"
  by (simp add: POST_found GET_found)

theorem zero_chunks_not_found_witness:
  "POST (exampleEnv exampleProvider []) exampleRequest initialState
     = (errorResponse 404 ''No document chunks found'', initialState)
   \<and> GET (exampleEnv exampleProvider []) exampleQuery initialState
     = (errorResponse 404 ''No document chunks found'', initialState)"
  using zero_chunks_not_found [of exampleRequest "exampleEnv exampleProvider []"
      "\<lparr>title = ''notes.txt'', language = Some ''en''\<rparr>" initialState exampleQuery
      "\<lparr>title = ''notes.txt'', language = Some ''en''\<rparr>"]
  by (simp add: exampleEnv_def exampleRequest_def exampleQuery_def documentIdOf_def
      targetLanguageOf_def binaryDownload_def isTruthyParam_def truthy_def)


section \<open>The translator and the loops\<close>

lemma translateText_outcome:
  "fst (translateText E tx tgt src st) = Inr (chunkOutcome E tgt src tx st)"
  by (auto simp: translateText_def chunkOutcome_def translationOf_def translateUncached_def
      translateAttempt_def getCachedTranslation_def truthy_def Let_def
      split: option.splits providerResult.splits prod.splits sum.splits)

lemma translateText_sleeps: "sleeps (snd (translateText E tx tgt src st)) = sleeps st"
  by (auto simp: translateText_def translateUncached_def
      translateAttempt_def getCachedTranslation_def setCachedTranslation_def truthy_def Let_def
      split: option.splits providerResult.splits prod.splits sum.splits)

lemma translateText_providerCalls:
  "providerCalls (snd (translateText E tx tgt src st)) = providerCalls st
   \<or> providerCalls (snd (translateText E tx tgt src st)) = providerCalls st @ [(tx, src, tgt)]"
  by (auto simp: translateText_def translateUncached_def
      translateAttempt_def getCachedTranslation_def setCachedTranslation_def truthy_def Let_def
      split: option.splits providerResult.splits prod.splits sum.splits)

lemma retryLoop_first_success:
  assumes "fst (tr st) = Inr r"
  shows "retryLoop factor tr c 0 st = ((r, 0), snd (tr st))"
  using assms by (subst retryLoop.simps) (auto simp: MAX_RETRIES_def split: prod.splits)

lemma retryLoop_translateText:
  "retryLoop factor (translateText E tx tgt src) c 0 st
     = ((chunkOutcome E tgt src tx st, 0), snd (translateText E tx tgt src st))"
  by (rule retryLoop_first_success) (rule translateText_outcome)

lemma processChunkPOST_eq:
  "processChunkPOST E tgt src cs i st =
     (chunkOutcome E tgt src (content (cs ! i)) st,
      if i < length cs - 1
      then sleep (if fst (getCachedTranslation (md5 E) (content (cs ! i)) tgt src
                           (snd (translateText E (content (cs ! i)) tgt src st))) \<noteq> None
                  then 100 else 2000)
             (snd (getCachedTranslation (md5 E) (content (cs ! i)) tgt src
                           (snd (translateText E (content (cs ! i)) tgt src st))))
      else snd (translateText E (content (cs ! i)) tgt src st))"
  by (auto simp: processChunkPOST_def retryPOST_def retryLoop_translateText Let_def
      getCachedTranslation_def DELAY_BETWEEN_REQUESTS_def truthy_def
      split: prod.splits option.splits)

lemma processChunkGET_eq:
  "processChunkGET E tgt src cs i st =
     (chunkOutcome E tgt src (content (cs ! i)) st,
      if i < length cs - 1 then sleep 2000 (snd (translateText E (content (cs ! i)) tgt src st))
      else snd (translateText E (content (cs ! i)) tgt src st))"
  by (simp add: processChunkGET_def retryGET_def retryLoop_translateText Let_def)

lemma fst_processChunkPOST:
  "fst (processChunkPOST E tgt src cs i st) = chunkOutcome E tgt src (content (cs ! i)) st"
  by (simp add: processChunkPOST_eq)

lemma fst_processChunkGET:
  "fst (processChunkGET E tgt src cs i st) = chunkOutcome E tgt src (content (cs ! i)) st"
  by (simp add: processChunkGET_eq)

lemma arraySet_end: "arraySet xs (length xs) v = xs @ [v]"
  by (simp add: arraySet_def)

lemma chunkLoopPOST_from:
  assumes "i \<le> length cs" and "length acc = i"
  shows "chunkLoopPOST E tgt src cs i acc (statesPOST E tgt src cs st i)
     = (acc @ map (\<lambda>k. chunkOutcome E tgt src (content (cs ! k)) (statesPOST E tgt src cs st k))
               [i..<length cs],
        statesPOST E tgt src cs st (length cs))"
  using assms
proof (induction "length cs - i" arbitrary: i acc)
  case 0
  then have "i = length cs" by simp
  then show ?case by (subst chunkLoopPOST.simps) simp
next
  case (Suc d)
  then have lt: "i < length cs" by simp
  have step: "processChunkPOST E tgt src cs i (statesPOST E tgt src cs st i)
      = (chunkOutcome E tgt src (content (cs ! i)) (statesPOST E tgt src cs st i),
         statesPOST E tgt src cs st (Suc i))"
    by (simp add: fst_processChunkPOST [symmetric])
  have ih: "chunkLoopPOST E tgt src cs (Suc i)
       (acc @ [chunkOutcome E tgt src (content (cs ! i)) (statesPOST E tgt src cs st i)])
       (statesPOST E tgt src cs st (Suc i))
     = ((acc @ [chunkOutcome E tgt src (content (cs ! i)) (statesPOST E tgt src cs st i)])
          @ map (\<lambda>k. chunkOutcome E tgt src (content (cs ! k)) (statesPOST E tgt src cs st k))
               [Suc i..<length cs],
        statesPOST E tgt src cs st (length cs))"
    using Suc.hyps(2) lt Suc.prems(2) by (intro Suc.hyps(1)) simp_all
  show ?case
    using lt Suc.prems(2) ih
    by (subst chunkLoopPOST.simps) (simp add: step arraySet_end [of acc, simplified Suc.prems(2)] upt_conv_Cons del: statesPOST.simps)
qed


lemma chunkLoopGET_from:
  assumes "i \<le> length cs" and "length acc = i"
  shows "chunkLoopGET E tgt src cs i acc (statesGET E tgt src cs st i)
     = (acc @ map (\<lambda>k. chunkOutcome E tgt src (content (cs ! k)) (statesGET E tgt src cs st k))
               [i..<length cs],
        statesGET E tgt src cs st (length cs))"
  using assms
proof (induction "length cs - i" arbitrary: i acc)
  case 0
  then have "i = length cs" by simp
  then show ?case by (subst chunkLoopGET.simps) simp
next
  case (Suc d)
  then have lt: "i < length cs" by simp
  have step: "processChunkGET E tgt src cs i (statesGET E tgt src cs st i)
      = (chunkOutcome E tgt src (content (cs ! i)) (statesGET E tgt src cs st i),
         statesGET E tgt src cs st (Suc i))"
    by (simp add: fst_processChunkGET [symmetric])
  have ih: "chunkLoopGET E tgt src cs (Suc i)
       (acc @ [chunkOutcome E tgt src (content (cs ! i)) (statesGET E tgt src cs st i)])
       (statesGET E tgt src cs st (Suc i))
     = ((acc @ [chunkOutcome E tgt src (content (cs ! i)) (statesGET E tgt src cs st i)])
          @ map (\<lambda>k. chunkOutcome E tgt src (content (cs ! k)) (statesGET E tgt src cs st k))
               [Suc i..<length cs],
        statesGET E tgt src cs st (length cs))"
    using Suc.hyps(2) lt Suc.prems(2) by (intro Suc.hyps(1)) simp_all
  show ?case
    using lt Suc.prems(2) ih
    by (subst chunkLoopGET.simps) (simp add: step arraySet_end [of acc, simplified Suc.prems(2)] upt_conv_Cons del: statesGET.simps)
qed

lemma chunkLoopPOST_result:
  "chunkLoopPOST E tgt src cs 0 [] st
     = (map (\<lambda>k. chunkOutcome E tgt src (content (cs ! k)) (statesPOST E tgt src cs st k))
          [0..<length cs],
        statesPOST E tgt src cs st (length cs))"
  using chunkLoopPOST_from [of 0 cs "[]" E tgt src st] by simp

lemma chunkLoopGET_result:
  "chunkLoopGET E tgt src cs 0 [] st
     = (map (\<lambda>k. chunkOutcome E tgt src (content (cs ! k)) (statesGET E tgt src cs st k))
          [0..<length cs],
        statesGET E tgt src cs st (length cs))"
  using chunkLoopGET_from [of 0 cs "[]" E tgt src st] by simp

lemma chunkOutcome_same_language: "chunkOutcome E src src tx st = tx"
  by (simp add: chunkOutcome_def translationOf_def)

lemma map_content_nth: "map (\<lambda>k. content (cs ! k)) [0..<length cs] = map content cs"
  by (rule nth_equalityI) simp_all

section \<open>Admission\<close>

lemma status_responses [simp]:
  "status (generateDocumentResponse b n) = 200"
  "status (tooLargePOST E m f n) = 413"
  "status (unavailablePOST E m f n) = 503"
  "status (tooLargeGET n) = 413"
  "status (emptyResponse c) = c"
  by (simp_all add: generateDocumentResponse_def tooLargePOST_def unavailablePOST_def
      tooLargeGET_def emptyResponse_def)


lemma length_manyChunks [simp]: "length (manyChunks n) = n"
  by (simp add: manyChunks_def)

lemma manyChunks_Nil [simp]: "manyChunks n = [] \<longleftrightarrow> n = 0"
  by (simp add: manyChunks_def)

lemma exampleEnv_simps [simp]:
  "findMetadata (exampleEnv p cs) ''notes.txt'' = Some \<lparr>title = ''notes.txt'', language = Some ''en''\<rparr>"
  "findMetadataWithChunks (exampleEnv p cs) ''notes.txt'' = Some \<lparr>title = ''notes.txt'', language = Some ''en''\<rparr>"
  "findChunks (exampleEnv p cs) ''notes.txt'' = cs"
  "md5 (exampleEnv p cs) = (\<lambda>s. s)"
  "translate (exampleEnv p cs) = p"
  "encodeURIComponent (exampleEnv p cs) = (\<lambda>s. s)"
  by (simp_all add: exampleEnv_def)

lemma exampleRequest_simps [simp]:
  "documentIdOf exampleRequest = ''notes.txt''"
  "targetLanguageOf exampleRequest = ''es''"
  "formatOf exampleRequest = ''txt''"
  by (simp_all add: exampleRequest_def documentIdOf_def targetLanguageOf_def formatOf_def)

lemma exampleQuery_simps [simp]:
  "binaryDownload exampleQuery" "the (qDocumentId exampleQuery) = ''notes.txt''"
  "the (qTargetLanguage exampleQuery) = ''es''" "\<not> skipTranslationOf exampleQuery"
  "binaryDownload exampleQuerySkip" "the (qDocumentId exampleQuerySkip) = ''notes.txt''"
  "the (qTargetLanguage exampleQuerySkip) = ''es''" "skipTranslationOf exampleQuerySkip"
  by (simp_all add: exampleQuery_def exampleQuerySkip_def binaryDownload_def isTruthyParam_def truthy_def
      skipTranslationOf_def)





section \<open>The availability gate\<close>


lemma response_fields [simp]:
  "retryAfter (unavailablePOST E m f n) = Some ''10-15 minutes''"
  "downloadUrl (unavailablePOST E m f n) = Some (fallbackUrl E (title m) f)"
  "body (unavailablePOST E m f n) = None"
  "chunkCount (unavailablePOST E m f n) = Some n"
  "body (generateDocumentResponse b n) = Some b"
  "error (generateDocumentResponse b n) = None"
  "chunkCount (generateDocumentResponse b n) = Some n"
  by (simp_all add: unavailablePOST_def generateDocumentResponse_def emptyResponse_def)



lemma length_exampleChunks [simp]: "length exampleChunks = 3"
  by (simp add: exampleChunks_def)

lemma sourceLanguageOf_example [simp]:
  "sourceLanguageOf \<lparr>title = ''notes.txt'', language = Some ''en''\<rparr> = ''en''"
  by (simp add: sourceLanguageOf_def truthy_def)





section \<open>Order of the translated chunks\<close>

text \<open>
  Claim C1.  Whenever a route answers with a translated document (status 200; for the
  download route with translation not skipped), for any provider and any cache content,
  the body is \<open>t 0\<close>, blank line, \<open>t 1\<close>, ..., where \<open>t k\<close> is the outcome of chunk \<open>k\<close>
  of the list the store returned, in the state in which the loop reaches that chunk: its
  cached or provider translation, or its own content where there is none.  In the loop
  itself the array of results has one place per chunk, and place \<open>k\<close> holds the outcome
  of chunk \<open>k\<close>.
\<close>

theorem translated_body_in_order:
  fixes E req m st q m' s
  defines "tgt \<equiv> targetLanguageOf req" and "src \<equiv> sourceLanguageOf m"
    and "cs \<equiv> findChunks E (title m)"
    and "tgt' \<equiv> the (qTargetLanguage q)" and "src' \<equiv> sourceLanguageOf m'"
    and "cs' \<equiv> findChunks E (the (qDocumentId q))"
  defines "st1 \<equiv> snd (translateText E ''test'' tgt src st)"
  shows "(documentIdOf req \<noteq> [] \<and> targetLanguageOf req \<noteq> []
      \<and> findMetadata E (documentIdOf req) = Some m \<and> status (fst (POST E req st)) = 200
    \<longrightarrow> body (fst (POST E req st))
        = Some (join ''\<newline>\<newline>''
            (map (\<lambda>k. chunkOutcome E tgt src (content (cs ! k)) (statesPOST E tgt src cs st1 k))
               [0..<length cs])))
   \<and> (binaryDownload q \<and> \<not> skipTranslationOf q
      \<and> findMetadataWithChunks E (the (qDocumentId q)) = Some m' \<and> status (fst (GET E q st)) = 200
    \<longrightarrow> body (fst (GET E q st))
        = Some (join ''\<newline>\<newline>''
            (map (\<lambda>k. chunkOutcome E tgt' src' (content (cs' ! k)) (statesGET E tgt' src' cs' st k))
               [0..<length cs'])))
   \<and> length (fst (chunkLoopPOST E tgt src cs 0 [] s)) = length cs
   \<and> (\<forall>k<length cs. fst (chunkLoopPOST E tgt src cs 0 [] s) ! k
          = chunkOutcome E tgt src (content (cs ! k)) (statesPOST E tgt src cs s k))
   \<and> length (fst (chunkLoopGET E tgt' src' cs' 0 [] s)) = length cs'
   \<and> (\<forall>k<length cs'. fst (chunkLoopGET E tgt' src' cs' 0 [] s) ! k
          = chunkOutcome E tgt' src' (content (cs' ! k)) (statesGET E tgt' src' cs' s k))"
proof -
  have same: "\<And>E l cs f. map (\<lambda>k. chunkOutcome E l l (content (cs ! k)) (f k)) [0..<length cs]
      = map content cs"
    by (simp add: chunkOutcome_same_language map_content_nth)
  have post: "documentIdOf req \<noteq> [] \<and> targetLanguageOf req \<noteq> []
      \<and> findMetadata E (documentIdOf req) = Some m \<and> status (fst (POST E req st)) = 200
    \<longrightarrow> body (fst (POST E req st))
        = Some (join ''\<newline>\<newline>''
            (map (\<lambda>k. chunkOutcome E tgt src (content (cs ! k)) (statesPOST E tgt src cs st1 k))
               [0..<length cs]))"
    unfolding tgt_def src_def cs_def st1_def
    by (auto simp: POST_found Let_def chunkLoopPOST_result same split: if_splits)
  have get: "binaryDownload q \<and> \<not> skipTranslationOf q
      \<and> findMetadataWithChunks E (the (qDocumentId q)) = Some m' \<and> status (fst (GET E q st)) = 200
    \<longrightarrow> body (fst (GET E q st))
        = Some (join ''\<newline>\<newline>''
            (map (\<lambda>k. chunkOutcome E tgt' src' (content (cs' ! k)) (statesGET E tgt' src' cs' st k))
               [0..<length cs']))"
    unfolding tgt'_def src'_def cs'_def
    by (auto simp: GET_found Let_def chunkLoopGET_result same split: if_splits)
  show ?thesis
    using post get by (simp add: chunkLoopPOST_result chunkLoopGET_result)
qed


theorem translated_body_in_order_witness:
  "status (fst (POST (exampleEnv exampleProvider exampleChunks) exampleRequest initialState)) = 200
   \<and> body (fst (POST (exampleEnv exampleProvider exampleChunks) exampleRequest initialState))
       = Some (join ''\<newline>\<newline>''
           (map (\<lambda>k. chunkOutcome (exampleEnv exampleProvider exampleChunks) ''es'' ''en''
                       (content (exampleChunks ! k))
                       (statesPOST (exampleEnv exampleProvider exampleChunks) ''es'' ''en'' exampleChunks
                          (snd (translateText (exampleEnv exampleProvider exampleChunks) ''test''
                                  ''es'' ''en'' initialState)) k))
              [0..<length exampleChunks]))
   \<and> join ''\<newline>\<newline>''
           (map (\<lambda>k. chunkOutcome (exampleEnv exampleProvider exampleChunks) ''es'' ''en''
                       (content (exampleChunks ! k))
                       (statesPOST (exampleEnv exampleProvider exampleChunks) ''es'' ''en'' exampleChunks
                          (snd (translateText (exampleEnv exampleProvider exampleChunks) ''test''
                                  ''es'' ''en'' initialState)) k))
              [0..<length exampleChunks])
       = ''Hola.\<newline>\<newline>Mundo.\<newline>\<newline>Adios.''
   \<and> status (fst (GET (exampleEnv exampleProvider exampleChunks) exampleQuery initialState)) = 200
   \<and> body (fst (GET (exampleEnv exampleProvider exampleChunks) exampleQuery initialState))
       = Some (join ''\<newline>\<newline>''
           (map (\<lambda>k. chunkOutcome (exampleEnv exampleProvider exampleChunks) ''es'' ''en''
                       (content (exampleChunks ! k))
                       (statesGET (exampleEnv exampleProvider exampleChunks) ''es'' ''en'' exampleChunks
                          initialState k))
              [0..<length exampleChunks]))"
proof -
  let ?E = "exampleEnv exampleProvider exampleChunks"
  let ?m = "\<lparr>title = ''notes.txt'', language = Some ''en''\<rparr>"
  have p: "status (fst (POST ?E exampleRequest initialState)) = 200"
    by code_simp
  have g: "status (fst (GET ?E exampleQuery initialState)) = 200"
    by code_simp
  have j: "join ''\<newline>\<newline>''
           (map (\<lambda>k. chunkOutcome ?E ''es'' ''en'' (content (exampleChunks ! k))
                       (statesPOST ?E ''es'' ''en'' exampleChunks
                          (snd (translateText ?E ''test'' ''es'' ''en'' initialState)) k))
              [0..<length exampleChunks])
       = ''Hola.\<newline>\<newline>Mundo.\<newline>\<newline>Adios.''"
    by code_simp
  show ?thesis
    using translated_body_in_order [of exampleRequest ?E ?m initialState exampleQuery ?m] p g j
    by simp
qed

section \<open>A failing chunk\<close>

lemma providerFails_translationOf:
  "providerFails E tgt src tx st \<Longrightarrow> translationOf E tgt src tx st = None"
  by (auto simp: providerFails_def translationOf_def split: providerResult.splits)

text \<open>
  Claim C2.  For a document past both gates of the translate route (found, between 1 and
  100 chunks, another target language, the probe passed): when the provider call made for
  chunk \<open>i\<close> throws and every other chunk gets a translation (from the cache or the
  provider), the route still answers with the complete result (status 200, no error, all
  chunks counted); place \<open>i\<close> of the result is the content of chunk \<open>i\<close> as it was, and
  every other place holds that chunk's translation.
\<close>

theorem degrade_not_abort:
  fixes E req m st i
  defines "tgt \<equiv> targetLanguageOf req" and "src \<equiv> sourceLanguageOf m"
    and "cs \<equiv> findChunks E (title m)"
  defines "st1 \<equiv> snd (translateText E ''test'' tgt src st)"
  defines "xs \<equiv> fst (chunkLoopPOST E tgt src cs 0 [] st1)"
  assumes "documentIdOf req \<noteq> []" and "targetLanguageOf req \<noteq> []"
    and "findMetadata E (documentIdOf req) = Some m"
    and "0 < length cs" and "length cs \<le> 100" and "tgt \<noteq> src"
    and "fst (translateText E ''test'' tgt src st) \<noteq> Inr ''test''"
    and "i < length cs"
    and "providerFails E tgt src (content (cs ! i)) (statesPOST E tgt src cs st1 i)"
    and "\<forall>j<length cs. j \<noteq> i \<longrightarrow>
           translationOf E tgt src (content (cs ! j)) (statesPOST E tgt src cs st1 j) \<noteq> None"
  shows "status (fst (POST E req st)) = 200 \<and> error (fst (POST E req st)) = None
     \<and> chunkCount (fst (POST E req st)) = Some (length cs)
     \<and> body (fst (POST E req st)) = Some (join ''\<newline>\<newline>'' xs)
     \<and> length xs = length cs
     \<and> xs ! i = content (cs ! i)
     \<and> (\<forall>j<length cs. j \<noteq> i \<longrightarrow>
          translationOf E tgt src (content (cs ! j)) (statesPOST E tgt src cs st1 j) = Some (xs ! j))"
proof -
  have p: "POST E req st = (generateDocumentResponse (join ''\<newline>\<newline>'' xs) (length cs),
       snd (chunkLoopPOST E tgt src cs 0 [] st1))"
    using assms(6-12) unfolding xs_def st1_def tgt_def src_def cs_def
    by (simp add: POST_found Let_def)
  have x: "xs = map (\<lambda>k. chunkOutcome E tgt src (content (cs ! k)) (statesPOST E tgt src cs st1 k))
             [0..<length cs]"
    unfolding xs_def by (simp add: chunkLoopPOST_result)
  have xi: "xs ! i = content (cs ! i)"
    using assms(13) providerFails_translationOf [OF assms(14)]
    by (simp add: x chunkOutcome_def)
  have xj: "\<forall>j<length cs. j \<noteq> i \<longrightarrow>
      translationOf E tgt src (content (cs ! j)) (statesPOST E tgt src cs st1 j) = Some (xs ! j)"
    using assms(15) by (auto simp: x chunkOutcome_def split: option.splits)
  show ?thesis
    using xi xj by (simp add: p) (simp add: x)
qed


theorem degrade_not_abort_witness:
  "status (fst (POST (exampleEnv failingProvider exampleChunks) exampleRequest initialState)) = 200
   \<and> body (fst (POST (exampleEnv failingProvider exampleChunks) exampleRequest initialState))
       = Some ''Hola.\<newline>\<newline>World.\<newline>\<newline>Adios.''
   \<and> fst (chunkLoopPOST (exampleEnv failingProvider exampleChunks) ''es'' ''en'' exampleChunks 0 []
            (snd (translateText (exampleEnv failingProvider exampleChunks) ''test'' ''es'' ''en''
                    initialState))) ! 1 = ''World.''"
proof -
  let ?E = "exampleEnv failingProvider exampleChunks"
  let ?m = "\<lparr>title = ''notes.txt'', language = Some ''en''\<rparr>"
  let ?tgt = "targetLanguageOf exampleRequest"
  let ?src = "sourceLanguageOf ?m"
  let ?cs = "findChunks ?E (title ?m)"
  let ?st1 = "snd (translateText ?E ''test'' ?tgt ?src initialState)"
  have a: "documentIdOf exampleRequest \<noteq> []" "targetLanguageOf exampleRequest \<noteq> []"
    "findMetadata ?E (documentIdOf exampleRequest) = Some ?m"
    "0 < length ?cs" "length ?cs \<le> 100" "?tgt \<noteq> ?src" "1 < length ?cs"
    by simp_all
  have b: "fst (translateText ?E ''test'' ?tgt ?src initialState) \<noteq> Inr ''test''"
    by code_simp
  have c: "providerFails ?E ?tgt ?src (content (?cs ! 1)) (statesPOST ?E ?tgt ?src ?cs ?st1 1)"
    by code_simp
  have d0: "translationOf ?E ?tgt ?src (content (?cs ! 0)) (statesPOST ?E ?tgt ?src ?cs ?st1 0) \<noteq> None"
    by code_simp
  have d2: "translationOf ?E ?tgt ?src (content (?cs ! 2)) (statesPOST ?E ?tgt ?src ?cs ?st1 2) \<noteq> None"
    by code_simp
  have d: "\<forall>j<length ?cs. j \<noteq> 1 \<longrightarrow>
      translationOf ?E ?tgt ?src (content (?cs ! j)) (statesPOST ?E ?tgt ?src ?cs ?st1 j) \<noteq> None"
  proof (intro allI impI)
    fix j assume "j < length ?cs" and "j \<noteq> 1"
    then have "j = 0 \<or> j = 2" by simp arith
    then show "translationOf ?E ?tgt ?src (content (?cs ! j)) (statesPOST ?E ?tgt ?src ?cs ?st1 j) \<noteq> None"
      using d0 d2 by blast
  qed
  have e: "join ''\<newline>\<newline>'' (fst (chunkLoopPOST ?E ?tgt ?src ?cs 0 [] ?st1))
      = ''Hola.\<newline>\<newline>World.\<newline>\<newline>Adios.''"
    by code_simp
  note t = degrade_not_abort [OF a(1-6) b a(7) c d]
  have "status (fst (POST ?E exampleRequest initialState)) = 200
     \<and> body (fst (POST ?E exampleRequest initialState)) = Some ''Hola.\<newline>\<newline>World.\<newline>\<newline>Adios.''
     \<and> fst (chunkLoopPOST ?E ?tgt ?src ?cs 0 [] ?st1) ! 1 = content (?cs ! 1)"
    using t e by simp
  then show ?thesis by (simp add: exampleChunks_def)
qed

section \<open>The translator never throws\<close>

lemma translateText_calls_le:
  "length (providerCalls (snd (translateText E tx tgt src st))) \<le> Suc (length (providerCalls st))"
  using translateText_providerCalls [of E tx tgt src st] by auto

lemma getCachedTranslation_fields [simp]:
  "providerCalls (snd (getCachedTranslation h tx tgt src st)) = providerCalls st"
  "sleeps (snd (getCachedTranslation h tx tgt src st)) = sleeps st"
  "translationCache (snd (getCachedTranslation h tx tgt src st)) = translationCache st"
  by (simp_all add: getCachedTranslation_def Let_def split: option.splits)

lemma sleep_fields [simp]:
  "providerCalls (sleep ms st) = providerCalls st"
  "sleeps (sleep ms st) = sleeps st @ [ms]"
  "translationCache (sleep ms st) = translationCache st"
  by (simp_all add: sleep_def)

lemma processChunkPOST_calls:
  "providerCalls (snd (processChunkPOST E tgt src cs i st))
     = providerCalls (snd (translateText E (content (cs ! i)) tgt src st))"
  by (simp add: processChunkPOST_eq)

lemma processChunkGET_calls:
  "providerCalls (snd (processChunkGET E tgt src cs i st))
     = providerCalls (snd (translateText E (content (cs ! i)) tgt src st))"
  by (simp add: processChunkGET_eq)

lemma statesPOST_calls:
  "length (providerCalls (statesPOST E tgt src cs st k)) \<le> length (providerCalls st) + k"
proof (induction k)
  case 0
  show ?case by simp
next
  case (Suc k)
  have "length (providerCalls (statesPOST E tgt src cs st (Suc k)))
      \<le> length (providerCalls (statesPOST E tgt src cs st k)) + 1"
    by (simp add: processChunkPOST_calls translateText_calls_le)
  then show ?case using Suc by simp
qed

lemma statesGET_calls:
  "length (providerCalls (statesGET E tgt src cs st k)) \<le> length (providerCalls st) + k"
proof (induction k)
  case 0
  show ?case by simp
next
  case (Suc k)
  have "length (providerCalls (statesGET E tgt src cs st (Suc k)))
      \<le> length (providerCalls (statesGET E tgt src cs st k)) + 1"
    by (simp add: processChunkGET_calls translateText_calls_le)
  then show ?case using Suc by simp
qed

text \<open>
  Claim C7.  \<^verbatim>\<open>translateText\<close> returns for every input and never throws; when the cache has
  nothing for the text and the provider throws, or returns empty or unchanged text, it
  returns the text it was given.  So in both routes the retry loop around it ends after
  its first pass with \<^verbatim>\<open>retryCount\<close> still 0 (the \<^verbatim>\<open>catch\<close> branch, which alone increments
  it, is never entered), in the state \<^verbatim>\<open>translateText\<close> left: no back-off wait is made and
  the provider is called at most once for the chunk, hence at most once per chunk over a
  whole pass of either chunk loop.
\<close>

theorem translateText_total:
  "(\<exists>r. fst (translateText E tx tgt src st) = Inr r)
   \<and> (fst (getCachedTranslation (md5 E) tx tgt src st) = None
      \<and> (case translate E (length (providerCalls st)) tx src tgt of
            Throws e \<Rightarrow> True | Returns r \<Rightarrow> r = [] \<or> r = tx)
      \<longrightarrow> fst (translateText E tx tgt src st) = Inr tx)
   \<and> retryPOST (translateText E tx tgt src) tx st
       = ((chunkOutcome E tgt src tx st, 0), snd (translateText E tx tgt src st))
   \<and> retryGET (translateText E tx tgt src) tx st
       = ((chunkOutcome E tgt src tx st, 0), snd (translateText E tx tgt src st))
   \<and> snd (fst (retryPOST (translateText E tx tgt src) tx st)) = 0
   \<and> snd (fst (retryGET (translateText E tx tgt src) tx st)) = 0
   \<and> sleeps (snd (retryPOST (translateText E tx tgt src) tx st)) = sleeps st
   \<and> sleeps (snd (retryGET (translateText E tx tgt src) tx st)) = sleeps st
   \<and> length (providerCalls (snd (retryPOST (translateText E tx tgt src) tx st)))
       \<le> length (providerCalls st) + 1
   \<and> length (providerCalls (snd (retryGET (translateText E tx tgt src) tx st)))
       \<le> length (providerCalls st) + 1
   \<and> length (providerCalls (snd (chunkLoopPOST E tgt src cs 0 [] st)))
       \<le> length (providerCalls st) + length cs
   \<and> length (providerCalls (snd (chunkLoopGET E tgt src cs 0 [] st)))
       \<le> length (providerCalls st) + length cs"
proof -
  have a: "fst (getCachedTranslation (md5 E) tx tgt src st) = None
      \<and> (case translate E (length (providerCalls st)) tx src tgt of
            Throws e \<Rightarrow> True | Returns r \<Rightarrow> r = [] \<or> r = tx)
      \<longrightarrow> fst (translateText E tx tgt src st) = Inr tx"
    by (auto simp: translateText_outcome chunkOutcome_def translationOf_def
        split: providerResult.splits option.splits)
  show ?thesis
    using a
    by (simp add: translateText_outcome retryPOST_def retryGET_def retryLoop_translateText
        translateText_sleeps translateText_calls_le chunkLoopPOST_result chunkLoopGET_result
        statesPOST_calls statesGET_calls)
qed

theorem translateText_total_witness:
  "fst (translateText (exampleEnv rateLimitedProvider oneChunk) ''Hello.'' ''es'' ''en'' initialState)
     = Inr ''Hello.''
   \<and> retryPOST (translateText (exampleEnv rateLimitedProvider oneChunk) ''Hello.'' ''es'' ''en'')
        ''Hello.'' initialState
      = ((''Hello.'', 0),
         initialState\<lparr>cacheMisses := 1, providerCalls := [(''Hello.'', ''en'', ''es'')]\<rparr>)"
proof -
  let ?E = "exampleEnv rateLimitedProvider oneChunk"
  have m: "fst (getCachedTranslation (md5 ?E) ''Hello.'' ''es'' ''en'' initialState) = None
      \<and> (case translate ?E (length (providerCalls initialState)) ''Hello.'' ''en'' ''es'' of
            Throws e \<Rightarrow> True | Returns r \<Rightarrow> r = [] \<or> r = ''Hello.'')"
    by code_simp
  have s: "snd (translateText ?E ''Hello.'' ''es'' ''en'' initialState)
      = initialState\<lparr>cacheMisses := 1, providerCalls := [(''Hello.'', ''en'', ''es'')]\<rparr>"
    by (simp add: translateText_def translateUncached_def translateAttempt_def
      getCachedTranslation_def initialState_def rateLimitedProvider_def
      truthy_def trim_def isWhiteSpace_def Let_def getCacheKey_def)
  have o: "chunkOutcome ?E ''es'' ''en'' ''Hello.'' initialState = ''Hello.''"
    by code_simp
  show ?thesis
    using translateText_total [of ?E "''Hello.''" "''es''" "''en''" initialState oneChunk] m
    by (simp add: s o)
qed

section \<open>The retry loop\<close>

lemma retryLoop_returns:
  assumes "retryCount < 3" and "fst (tr st) = Inr r"
  shows "retryLoop factor tr c retryCount st = ((r, retryCount), snd (tr st))"
  using assms by (subst retryLoop.simps) (auto simp: MAX_RETRIES_def split: prod.splits)

lemma retryLoop_gives_up:
  assumes "retryCount < 3" and "fst (tr st) = Inl e" and "\<not> isTooManyRequests e"
  shows "retryLoop factor tr c retryCount st = ((c, retryCount + 1), snd (tr st))"
  using assms by (subst retryLoop.simps) (auto simp: MAX_RETRIES_def split: prod.splits)

lemma retryLoop_again:
  assumes "retryCount < 3" and "fst (tr st) = Inl e" and "isTooManyRequests e"
  shows "retryLoop factor tr c retryCount st
     = retryLoop factor tr c (retryCount + 1) (sleep ((retryCount + 1) * factor) (snd (tr st)))"
  using assms by (subst retryLoop.simps) (auto simp: MAX_RETRIES_def split: prod.splits)

lemma retryLoop_exhausted: "retryLoop factor tr c 3 st = ((c, 3), st)"
  by (subst retryLoop.simps) (simp add: MAX_RETRIES_def)

lemma retryLoop_always_limited:
  assumes "\<forall>s. \<exists>e. fst (tr s) = Inl e \<and> isTooManyRequests e"
  shows "retryLoop factor tr c 0 st
     = ((c, 3), sleep (3 * factor) (snd (tr (sleep (2 * factor)
          (snd (tr (sleep factor (snd (tr st)))))))))"
proof -
  let ?s1 = "sleep factor (snd (tr st))"
  let ?s2 = "sleep (2 * factor) (snd (tr ?s1))"
  let ?s3 = "sleep (3 * factor) (snd (tr ?s2))"
  from assms obtain e0 where e0: "fst (tr st) = Inl e0" "isTooManyRequests e0" by blast
  from assms obtain e1 where e1: "fst (tr ?s1) = Inl e1" "isTooManyRequests e1" by blast
  from assms obtain e2 where e2: "fst (tr ?s2) = Inl e2" "isTooManyRequests e2" by blast
  have "retryLoop factor tr c 0 st = retryLoop factor tr c 1 ?s1"
    using retryLoop_again [of 0 tr st e0 factor c] e0 by (simp add: eval_nat_numeral)
  also have "\<dots> = retryLoop factor tr c 2 ?s2"
    using retryLoop_again [of 1 tr ?s1 e1 factor c] e1 by (simp add: eval_nat_numeral)
  also have "\<dots> = retryLoop factor tr c 3 ?s3"
    using retryLoop_again [of 2 tr ?s2 e2 factor c] e2 by (simp add: eval_nat_numeral)
  finally show ?thesis by (simp add: retryLoop_exhausted)
qed

lemma translateText_provider_throws:
  assumes "tgt \<noteq> src" and "tx \<noteq> []" and "trim tx \<noteq> []"
    and "fst (getCachedTranslation (md5 E) tx tgt src st) = None"
    and "translate E (length (providerCalls st)) tx src tgt = Throws e"
  shows "translateText E tx tgt src st
     = (Inr tx, st\<lparr>cacheMisses := cacheMisses st + 1,
                    providerCalls := providerCalls st @ [(tx, src, tgt)]\<rparr>)"
  using assms
  by (auto simp: translateText_def translateUncached_def translateAttempt_def
      getCachedTranslation_def truthy_def Let_def split: option.splits if_splits)

text \<open>
  Claim C5 is not what the code does.  When the cache has nothing for a chunk and the
  provider call made for it fails with \<^verbatim>\<open>Too Many Requests\<close>, \<^verbatim>\<open>translateText\<close> catches the
  error itself and returns the text, so that the retry loop of either route ends after
  its first pass: one provider call has been made, nothing has waited, \<^verbatim>\<open>retryCount\<close> is
  0 and the chunk's result is its original text.  The loops themselves are written to
  retry: given a translator whose every call throws such an error, each makes three
  attempts, waiting 5, 10 and 15 seconds in the translate route and 3, 6 and 9 seconds in
  the download route, and then falls back to the original text.
\<close>

theorem rate_limited_never_retried:
  "(tgt \<noteq> src \<and> tx \<noteq> [] \<and> trim tx \<noteq> []
      \<and> fst (getCachedTranslation (md5 E) tx tgt src st) = None
      \<and> translate E (length (providerCalls st)) tx src tgt = Throws e \<and> isTooManyRequests e
    \<longrightarrow> retryPOST (translateText E tx tgt src) tx st
          = ((tx, 0), st\<lparr>cacheMisses := cacheMisses st + 1,
                          providerCalls := providerCalls st @ [(tx, src, tgt)]\<rparr>)
        \<and> retryGET (translateText E tx tgt src) tx st
          = ((tx, 0), st\<lparr>cacheMisses := cacheMisses st + 1,
                          providerCalls := providerCalls st @ [(tx, src, tgt)]\<rparr>))
   \<and> ((\<forall>s. \<exists>e. fst (tr s) = Inl e \<and> isTooManyRequests e)
    \<longrightarrow> retryPOST tr c st
          = ((c, 3), sleep 15000 (snd (tr (sleep 10000 (snd (tr (sleep 5000 (snd (tr st)))))))))
        \<and> retryGET tr c st
          = ((c, 3), sleep 9000 (snd (tr (sleep 6000 (snd (tr (sleep 3000 (snd (tr st))))))))))"
proof -
  have a: "tgt \<noteq> src \<and> tx \<noteq> [] \<and> trim tx \<noteq> []
      \<and> fst (getCachedTranslation (md5 E) tx tgt src st) = None
      \<and> translate E (length (providerCalls st)) tx src tgt = Throws e \<and> isTooManyRequests e
    \<longrightarrow> retryPOST (translateText E tx tgt src) tx st
          = ((tx, 0), st\<lparr>cacheMisses := cacheMisses st + 1,
                          providerCalls := providerCalls st @ [(tx, src, tgt)]\<rparr>)
        \<and> retryGET (translateText E tx tgt src) tx st
          = ((tx, 0), st\<lparr>cacheMisses := cacheMisses st + 1,
                          providerCalls := providerCalls st @ [(tx, src, tgt)]\<rparr>)"
  proof (intro impI)
    assume h: "tgt \<noteq> src \<and> tx \<noteq> [] \<and> trim tx \<noteq> []
      \<and> fst (getCachedTranslation (md5 E) tx tgt src st) = None
      \<and> translate E (length (providerCalls st)) tx src tgt = Throws e \<and> isTooManyRequests e"
    then have t: "translateText E tx tgt src st
       = (Inr tx, st\<lparr>cacheMisses := cacheMisses st + 1,
                      providerCalls := providerCalls st @ [(tx, src, tgt)]\<rparr>)"
      by (intro translateText_provider_throws) simp_all
    show "retryPOST (translateText E tx tgt src) tx st
          = ((tx, 0), st\<lparr>cacheMisses := cacheMisses st + 1,
                          providerCalls := providerCalls st @ [(tx, src, tgt)]\<rparr>)
        \<and> retryGET (translateText E tx tgt src) tx st
          = ((tx, 0), st\<lparr>cacheMisses := cacheMisses st + 1,
                          providerCalls := providerCalls st @ [(tx, src, tgt)]\<rparr>)"
      by (simp add: retryPOST_def retryGET_def retryLoop_returns t)
  qed
  have b: "(\<forall>s. \<exists>e. fst (tr s) = Inl e \<and> isTooManyRequests e)
    \<longrightarrow> retryPOST tr c st
          = ((c, 3), sleep 15000 (snd (tr (sleep 10000 (snd (tr (sleep 5000 (snd (tr st)))))))))
        \<and> retryGET tr c st
          = ((c, 3), sleep 9000 (snd (tr (sleep 6000 (snd (tr (sleep 3000 (snd (tr st)))))))))"
    using retryLoop_always_limited [of tr 5000 c st] retryLoop_always_limited [of tr 3000 c st]
    by (simp add: retryPOST_def retryGET_def)
  show ?thesis
    using a b by blast
qed

theorem rate_limited_never_retried_witness:
  "retryPOST (translateText (exampleEnv rateLimitedProvider oneChunk) ''Hello.'' ''es'' ''en'')
       ''Hello.'' initialState
     = ((''Hello.'', 0),
        initialState\<lparr>cacheMisses := 1, providerCalls := [(''Hello.'', ''en'', ''es'')]\<rparr>)
   \<and> retryGET (translateText (exampleEnv rateLimitedProvider oneChunk) ''Hello.'' ''es'' ''en'')
       ''Hello.'' initialState
     = ((''Hello.'', 0),
        initialState\<lparr>cacheMisses := 1, providerCalls := [(''Hello.'', ''en'', ''es'')]\<rparr>)
   \<and> retryPOST (throwingTranslator (Error ''429 Too Many Requests'')) ''Hello.'' initialState
       = ((''Hello.'', 3),
          initialState\<lparr>providerCalls := [(''Hello.'', ''en'', ''es''), (''Hello.'', ''en'', ''es''),
                                          (''Hello.'', ''en'', ''es'')],
                        sleeps := [5000, 10000, 15000]\<rparr>)
   \<and> retryGET (throwingTranslator (Error ''429 Too Many Requests'')) ''Hello.'' initialState
       = ((''Hello.'', 3),
          initialState\<lparr>providerCalls := [(''Hello.'', ''en'', ''es''), (''Hello.'', ''en'', ''es''),
                                          (''Hello.'', ''en'', ''es'')],
                        sleeps := [3000, 6000, 9000]\<rparr>)"
proof -
  let ?E = "exampleEnv rateLimitedProvider oneChunk"
  have tmr: "isTooManyRequests (Error ''429 Too Many Requests'')" by code_simp
  have always: "\<forall>s. \<exists>e. fst (throwingTranslator (Error ''429 Too Many Requests'') s) = Inl e
      \<and> isTooManyRequests e"
    using tmr by (simp add: throwingTranslator_def)
  have h: "''es'' \<noteq> ''en'' \<and> ''Hello.'' \<noteq> [] \<and> trim ''Hello.'' \<noteq> []
      \<and> fst (getCachedTranslation (md5 ?E) ''Hello.'' ''es'' ''en'' initialState) = None
      \<and> translate ?E (length (providerCalls initialState)) ''Hello.'' ''en'' ''es''
          = Throws (Error ''429 Too Many Requests'')
      \<and> isTooManyRequests (Error ''429 Too Many Requests'')"
    by code_simp
  note t = rate_limited_never_retried [where E = ?E and tx = "''Hello.''" and tgt = "''es''"
      and src = "''en''" and st = initialState and e = "Error ''429 Too Many Requests''"
      and tr = "throwingTranslator (Error ''429 Too Many Requests'')" and c = "''Hello.''"]
  have 1: "retryPOST (translateText ?E ''Hello.'' ''es'' ''en'') ''Hello.'' initialState
     = ((''Hello.'', 0),
        initialState\<lparr>cacheMisses := 1, providerCalls := [(''Hello.'', ''en'', ''es'')]\<rparr>)
   \<and> retryGET (translateText ?E ''Hello.'' ''es'' ''en'') ''Hello.'' initialState
     = ((''Hello.'', 0),
        initialState\<lparr>cacheMisses := 1, providerCalls := [(''Hello.'', ''en'', ''es'')]\<rparr>)"
    using t h by (simp add: initialState_def)
  have 2: "retryPOST (throwingTranslator (Error ''429 Too Many Requests'')) ''Hello.'' initialState
       = ((''Hello.'', 3),
          initialState\<lparr>providerCalls := [(''Hello.'', ''en'', ''es''), (''Hello.'', ''en'', ''es''),
                                          (''Hello.'', ''en'', ''es'')],
                        sleeps := [5000, 10000, 15000]\<rparr>)
   \<and> retryGET (throwingTranslator (Error ''429 Too Many Requests'')) ''Hello.'' initialState
       = ((''Hello.'', 3),
          initialState\<lparr>providerCalls := [(''Hello.'', ''en'', ''es''), (''Hello.'', ''en'', ''es''),
                                          (''Hello.'', ''en'', ''es'')],
                        sleeps := [3000, 6000, 9000]\<rparr>)"
    using t always by (simp add: throwingTranslator_def sleep_def initialState_def)
  show ?thesis
    using 1 2 by blast
qed

section \<open>Pacing\<close>

lemma lookup_depends_on_cache:
  "translationCache s = translationCache s'
   \<Longrightarrow> fst (getCachedTranslation h tx tgt src s) = fst (getCachedTranslation h tx tgt src s')"
  by (simp add: getCachedTranslation_def Let_def split: option.splits)

lemma translateText_keeps_cache:
  assumes "fst (getCachedTranslation (md5 E) tx tgt src st) \<noteq> None
           \<or> translationOf E tgt src tx st = None"
  shows "translationCache (snd (translateText E tx tgt src st)) = translationCache st"
  using assms
  by (auto simp: translateText_def translateUncached_def translationOf_def
      translateAttempt_def getCachedTranslation_def setCachedTranslation_def truthy_def Let_def
      split: option.splits providerResult.splits prod.splits sum.splits if_splits)

lemma pacingPOST_hit:
  assumes "fst (getCachedTranslation (md5 E) tx tgt src st) \<noteq> None"
  shows "pacingPOST E tgt src tx st = 100"
proof -
  have "translationCache (snd (translateText E tx tgt src st)) = translationCache st"
    using assms by (simp add: translateText_keeps_cache)
  then have "fst (getCachedTranslation (md5 E) tx tgt src (snd (translateText E tx tgt src st)))
      = fst (getCachedTranslation (md5 E) tx tgt src st)"
    by (rule lookup_depends_on_cache)
  then show ?thesis using assms by (simp add: pacingPOST_def)
qed

lemma pacingPOST_failed:
  assumes "fst (getCachedTranslation (md5 E) tx tgt src st) = None"
    and "translationOf E tgt src tx st = None"
  shows "pacingPOST E tgt src tx st = 2000"
proof -
  have "translationCache (snd (translateText E tx tgt src st)) = translationCache st"
    using assms(2) by (simp add: translateText_keeps_cache)
  then have "fst (getCachedTranslation (md5 E) tx tgt src (snd (translateText E tx tgt src st)))
      = fst (getCachedTranslation (md5 E) tx tgt src st)"
    by (rule lookup_depends_on_cache)
  then show ?thesis using assms(1) by (simp add: pacingPOST_def)
qed

lemma sleeps_processChunkPOST:
  "sleeps (snd (processChunkPOST E tgt src cs i st))
     = (if i < length cs - 1 then sleeps st @ [pacingPOST E tgt src (content (cs ! i)) st]
        else sleeps st)"
  by (simp add: processChunkPOST_eq translateText_sleeps pacingPOST_def)

lemma sleeps_processChunkGET:
  "sleeps (snd (processChunkGET E tgt src cs i st))
     = (if i < length cs - 1 then sleeps st @ [2000] else sleeps st)"
  by (simp add: processChunkGET_eq translateText_sleeps)

lemma sleeps_statesPOST:
  "k \<le> length cs \<Longrightarrow> sleeps (statesPOST E tgt src cs st k)
     = sleeps st @ map (\<lambda>j. pacingPOST E tgt src (content (cs ! j)) (statesPOST E tgt src cs st j))
                      [0..<min k (length cs - 1)]"
proof (induction k)
  case 0
  show ?case by simp
next
  case (Suc k)
  then have ih: "sleeps (statesPOST E tgt src cs st k)
     = sleeps st @ map (\<lambda>j. pacingPOST E tgt src (content (cs ! j)) (statesPOST E tgt src cs st j))
                      [0..<min k (length cs - 1)]"
    by simp
  show ?case
  proof (cases "k < length cs - 1")
    case True
    then have "min (Suc k) (length cs - 1) = Suc k" "min k (length cs - 1) = k" by simp_all
    then show ?thesis using True ih by (simp add: sleeps_processChunkPOST)
  next
    case False
    with Suc.prems have "k = length cs - 1" by simp
    then have "min (Suc k) (length cs - 1) = k" "min k (length cs - 1) = k" by simp_all
    then show ?thesis using False ih by (simp add: sleeps_processChunkPOST)
  qed
qed

lemma sleeps_statesGET:
  "k \<le> length cs \<Longrightarrow> sleeps (statesGET E tgt src cs st k)
     = sleeps st @ replicate (min k (length cs - 1)) 2000"
proof (induction k)
  case 0
  show ?case by simp
next
  case (Suc k)
  then have ih: "sleeps (statesGET E tgt src cs st k)
     = sleeps st @ replicate (min k (length cs - 1)) 2000"
    by simp
  show ?case
  proof (cases "k < length cs - 1")
    case True
    then have "min (Suc k) (length cs - 1) = Suc k" "min k (length cs - 1) = k" by simp_all
    then show ?thesis using True ih by (simp add: sleeps_processChunkGET replicate_append_same)
  next
    case False
    with Suc.prems have "k = length cs - 1" by simp
    then have "min (Suc k) (length cs - 1) = k" "min k (length cs - 1) = k" by simp_all
    then show ?thesis using False ih by (simp add: sleeps_processChunkGET)
  qed
qed

text \<open>
  Claim C8 as the specification states it fails.  In the download route a chunk served
  from the cache (no provider call is made for \<^verbatim>\<open>Hello.\<close>) is still followed by a wait of
  2000 ms.  In the translate route a chunk that needed a provider call is followed by a
  wait of 100 ms when the call succeeded: the route asks the cache after the translation
  was stored in it.
\<close>

theorem pacing_counterexample:
  "fst (getCachedTranslation (\<lambda>s. s) ''Hello.'' ''es'' ''en'' cachedState) = Some ''Hola.''
   \<and> providerCalls (snd (chunkLoopGET (exampleEnv exampleProvider exampleChunks) ''es'' ''en''
                           exampleChunks 0 [] cachedState))
       = [(''World.'', ''en'', ''es''), (''Bye.'', ''en'', ''es'')]
   \<and> sleeps (snd (chunkLoopGET (exampleEnv exampleProvider exampleChunks) ''es'' ''en''
                           exampleChunks 0 [] cachedState)) = [2000, 2000]
   \<and> providerCalls (snd (chunkLoopPOST (exampleEnv exampleProvider exampleChunks) ''es'' ''en''
                           exampleChunks 0 [] initialState))
       = [(''Hello.'', ''en'', ''es''), (''World.'', ''en'', ''es''), (''Bye.'', ''en'', ''es'')]
   \<and> sleeps (snd (chunkLoopPOST (exampleEnv exampleProvider exampleChunks) ''es'' ''en''
                           exampleChunks 0 [] initialState)) = [100, 100]"
  by code_simp

text \<open>
  Claim C8, amended.  In the sequential chunk loop of either route a wait is made after
  every chunk except the last one, one wait per chunk and in chunk order.  In the
  download route every such wait is 2000 ms.  In the translate route the wait is 100 ms
  when the cache had a translation for the chunk when the loop reached it (the chunk was
  served from the cache), and 2000 ms when the cache had none and the chunk got no
  translation (the provider call failed or returned empty or unchanged text, or the chunk
  was blank).
\<close>

theorem pacing_delays:
  "sleeps (snd (chunkLoopPOST E tgt src cs 0 [] st))
     = sleeps st @ map (\<lambda>k. pacingPOST E tgt src (content (cs ! k)) (statesPOST E tgt src cs st k))
                      [0..<length cs - 1]
   \<and> (fst (getCachedTranslation (md5 E) tx tgt src s) \<noteq> None \<longrightarrow> pacingPOST E tgt src tx s = 100)
   \<and> (fst (getCachedTranslation (md5 E) tx tgt src s) = None \<and> translationOf E tgt src tx s = None
      \<longrightarrow> pacingPOST E tgt src tx s = 2000)
   \<and> sleeps (snd (chunkLoopGET E tgt src cs 0 [] st)) = sleeps st @ replicate (length cs - 1) 2000"
  by (simp add: chunkLoopPOST_result chunkLoopGET_result sleeps_statesPOST sleeps_statesGET
      pacingPOST_hit pacingPOST_failed)

theorem pacing_delays_witness:
  "sleeps (snd (chunkLoopPOST (exampleEnv failingProvider exampleChunks) ''es'' ''en''
                  exampleChunks 0 [] cachedState)) = [100, 2000]
   \<and> sleeps (snd (chunkLoopGET (exampleEnv failingProvider exampleChunks) ''es'' ''en''
                  exampleChunks 0 [] cachedState)) = [2000, 2000]"
proof -
  let ?E = "exampleEnv failingProvider exampleChunks"
  let ?s1 = "statesPOST ?E ''es'' ''en'' exampleChunks cachedState (Suc 0)"
  let ?f = "\<lambda>k. pacingPOST ?E ''es'' ''en'' (content (exampleChunks ! k))
                  (statesPOST ?E ''es'' ''en'' exampleChunks cachedState k)"
  have hit: "fst (getCachedTranslation (md5 ?E) ''Hello.'' ''es'' ''en'' cachedState) \<noteq> None"
    by code_simp
  have miss: "fst (getCachedTranslation (md5 ?E) ''World.'' ''es'' ''en'' ?s1) = None
      \<and> translationOf ?E ''es'' ''en'' ''World.'' ?s1 = None"
    by code_simp
  note t0 = pacing_delays [of ?E "''es''" "''en''" exampleChunks cachedState "''Hello.''" cachedState]
  note t1 = pacing_delays [of ?E "''es''" "''en''" exampleChunks cachedState "''World.''" ?s1]
  have p0: "pacingPOST ?E ''es'' ''en'' ''Hello.'' cachedState = 100"
    using t0 hit by blast
  have p1: "pacingPOST ?E ''es'' ''en'' ''World.'' ?s1 = 2000"
    using t1 miss by blast
  have f0: "?f 0 = 100"
    using p0 by (simp add: exampleChunks_def)
  have f1: "?f (Suc 0) = 2000"
    using p1 by (simp add: exampleChunks_def del: statesPOST.simps)
  have n: "[0..<length exampleChunks - 1] = [0, Suc 0]"
    by (simp add: upt_rec)
  have s: "sleeps cachedState = []"
    by (simp add: cachedState_def initialState_def)
  have a: "sleeps (snd (chunkLoopPOST ?E ''es'' ''en'' exampleChunks 0 [] cachedState))
      = sleeps cachedState @ map ?f [0..<length exampleChunks - 1]"
    using t0 by blast
  have b: "sleeps (snd (chunkLoopGET ?E ''es'' ''en'' exampleChunks 0 [] cachedState))
      = sleeps cachedState @ replicate (length exampleChunks - 1) 2000"
    using t0 by blast
  have "sleeps (snd (chunkLoopPOST ?E ''es'' ''en'' exampleChunks 0 [] cachedState)) = [100, 2000]"
    unfolding a n s using f0 f1 by (simp del: statesPOST.simps)
  moreover have "sleeps (snd (chunkLoopGET ?E ''es'' ''en'' exampleChunks 0 [] cachedState))
      = [2000, 2000]"
    unfolding b s by (simp add: eval_nat_numeral)
  ultimately show ?thesis by blast
qed

end
